theory Spec2Isabelle
  imports Main "HOL-Library.Word" "HOL-Library.Signed_Division"
begin

unbundle bit_operations_syntax

section \<open>The HD44780 driver of wiringPi (hd44780.c)\<close>

text \<open>
  The driver talks to the display through the pin abstraction of wiringPi and the
  clock of the operating system. Both are outside the driver: every call the driver
  makes is recorded, in order, in a trace of events, and every answer the outside
  world gives (the level read from a pin, the time, the return code of a sleep, whether
  an allocation succeeds) is taken from an environment. The environment sees the whole
  trace so far, so it stands for any hardware whatsoever, including hardware that
  reacts to what the driver has written.
\<close>

subsection \<open>Time\<close>

text \<open>\<^verbatim>\<open>struct timespec\<close>. The fields are 64-bit signed integers in C; they are modelled as
  unbounded integers (the sums below stay far from the 64-bit range for every value a
  clock returns), with C's division and remainder, which truncate towards zero.\<close>

record timespec =
  tv_sec :: int
  tv_nsec :: int

definition standard_busy_delay :: timespec where
  "standard_busy_delay = \<lparr>tv_sec = 0, tv_nsec = 37000\<rparr>"

definition extended_busy_delay :: timespec where
  "extended_busy_delay = \<lparr>tv_sec = 0, tv_nsec = 41000\<rparr>"

definition reset_busy_delay :: timespec where
  "reset_busy_delay = \<lparr>tv_sec = 0, tv_nsec = 1520000\<rparr>"

definition enable_duration :: int where
  "enable_duration = 300"

definition timespec_add :: "timespec \<Rightarrow> timespec \<Rightarrow> timespec" where
  "timespec_add lhs rhs =
     \<lparr>tv_sec = tv_sec lhs + tv_sec rhs + (tv_nsec lhs + tv_nsec rhs) sdiv 1000000000,
      tv_nsec = (tv_nsec lhs + tv_nsec rhs) smod 1000000000\<rparr>"

definition timespec_gt :: "timespec \<Rightarrow> timespec \<Rightarrow> bool" where
  "timespec_gt lhs rhs =
     (if tv_sec lhs = tv_sec rhs then tv_nsec lhs > tv_nsec rhs else tv_sec lhs > tv_sec rhs)"

subsection \<open>The outside world: events and environment\<close>

datatype pin_mode = INPUT | OUTPUT

datatype pud = PUD_OFF | PUD_DOWN | PUD_UP

abbreviation (input) LOW :: int where "LOW \<equiv> 0"
abbreviation (input) HIGH :: int where "HIGH \<equiv> 1"

abbreviation (input) EXIT_SUCCESS :: int where "EXIT_SUCCESS \<equiv> 0"
abbreviation (input) EXIT_FAILURE :: int where "EXIT_FAILURE \<equiv> 1"

text \<open>One event per call that leaves the driver. \<open>Fprintf s i\<close> is
  \<^verbatim>\<open>fprintf(stderr, "%s%i\n", s, i)\<close>, \<open>Fputs s\<close> is \<^verbatim>\<open>fputs(s, stderr)\<close>.\<close>

datatype event =
    PinWrite int int
  | PinRead int
  | PinModeSet int pin_mode
  | PinPull int pud
  | DelayNs int
  | DelayUs int
  | ClockGet
  | ClockSleep timespec
  | Fprintf string int
  | Fputs string
  | NewNode int int
  | Malloc

type_synonym trace = "event list"

text \<open>The environment. Each answer may depend on everything that happened before.
  \<open>env_wiringPiNewNode\<close> and \<open>env_malloc\<close> say whether the allocation returns a
  non-null pointer; \<open>env_wiringPiFindNode\<close> whether a node is registered for a pin.\<close>

record env =
  env_digitalRead :: "trace \<Rightarrow> int \<Rightarrow> int"
  env_clock_gettime :: "trace \<Rightarrow> timespec"
  env_clock_nanosleep :: "trace \<Rightarrow> timespec \<Rightarrow> int"
  env_wiringPiFindNode :: "int \<Rightarrow> bool"
  env_wiringPiNewNode :: "trace \<Rightarrow> int \<Rightarrow> int \<Rightarrow> bool"
  env_malloc :: "trace \<Rightarrow> bool"

definition digitalWrite :: "int \<Rightarrow> int \<Rightarrow> trace \<Rightarrow> trace" where
  "digitalWrite pin v tr = tr @ [PinWrite pin v]"

definition pinMode :: "int \<Rightarrow> pin_mode \<Rightarrow> trace \<Rightarrow> trace" where
  "pinMode pin m tr = tr @ [PinModeSet pin m]"

definition pullUpDnControl :: "int \<Rightarrow> pud \<Rightarrow> trace \<Rightarrow> trace" where
  "pullUpDnControl pin p tr = tr @ [PinPull pin p]"

definition delayNanoseconds :: "int \<Rightarrow> trace \<Rightarrow> trace" where
  "delayNanoseconds n tr = tr @ [DelayNs n]"

definition delayMicroseconds :: "int \<Rightarrow> trace \<Rightarrow> trace" where
  "delayMicroseconds n tr = tr @ [DelayUs n]"

definition digitalRead :: "env \<Rightarrow> int \<Rightarrow> trace \<Rightarrow> int \<times> trace" where
  "digitalRead env pin tr = (env_digitalRead env tr pin, tr @ [PinRead pin])"

definition clock_gettime :: "env \<Rightarrow> trace \<Rightarrow> timespec \<times> trace" where
  "clock_gettime env tr = (env_clock_gettime env tr, tr @ [ClockGet])"

definition clock_nanosleep :: "env \<Rightarrow> timespec \<Rightarrow> trace \<Rightarrow> int \<times> trace" where
  "clock_nanosleep env deadline tr = (env_clock_nanosleep env tr deadline, tr @ [ClockSleep deadline])"

subsection \<open>The node and its data\<close>

text \<open>\<^verbatim>\<open>struct hd44780DataStruct\<close>. \<open>pinDB\<close> is the array \<^verbatim>\<open>int pinDB[8]\<close>; the driver
  reads it at the constant indices 0 to 7 only.\<close>

record hd44780DataStruct =
  readEnabled :: bool
  mode8Enabled :: bool
  mode8 :: bool
  pinRS :: int
  pinRW :: int
  pinE :: int
  pinDB :: "int list"
  operation_end :: timespec

text \<open>The two function pointers of a node that the driver sets. A node fresh from
  \<^verbatim>\<open>wiringPiNewNode\<close> has neither set to a handler of this driver.\<close>

datatype write_handler = NoWriteHandler | Hd44780DigitalWrite_8 | Hd44780DigitalWrite_4

datatype read_handler = NoReadHandler | Hd44780DigitalRead_8 | Hd44780DigitalRead_4

text \<open>\<^verbatim>\<open>struct wiringPiNodeStruct\<close>, the fields the driver uses. \<open>dataStruct\<close> is a
  pointer: \<open>None\<close> is the null pointer.\<close>

record wiringPiNodeStruct =
  pinBase :: int
  dataStruct :: "hd44780DataStruct option"
  node_digitalWrite :: write_handler
  node_digitalRead :: read_handler

datatype error = NullPointerDereference | AssumptionViolated

subsection \<open>Control lines and strobe cycles\<close>

definition setStatusPins :: "hd44780DataStruct \<Rightarrow> bool \<Rightarrow> bool \<Rightarrow> trace \<Rightarrow> trace" where
  "setStatusPins nodeData RS RW tr =
     (let tr = digitalWrite (pinRS nodeData) (of_bool RS) tr;
          tr = (if readEnabled nodeData then digitalWrite (pinRW nodeData) (of_bool RW) tr else tr)
      in delayNanoseconds 50 tr)"

definition writeCycleStart :: "int \<Rightarrow> trace \<Rightarrow> trace" where
  "writeCycleStart e tr = digitalWrite e HIGH tr"

definition writeCycleEnd :: "int \<Rightarrow> trace \<Rightarrow> trace" where
  "writeCycleEnd e tr =
     delayNanoseconds enable_duration (digitalWrite e LOW (delayNanoseconds enable_duration tr))"

definition readCycleStart :: "int \<Rightarrow> trace \<Rightarrow> trace" where
  "readCycleStart e tr = delayNanoseconds enable_duration (digitalWrite e HIGH tr)"

definition readCycleEnd :: "int \<Rightarrow> trace \<Rightarrow> trace" where
  "readCycleEnd e tr = delayNanoseconds enable_duration (digitalWrite e LOW tr)"

subsection \<open>Waiting for the controller\<close>

text \<open>The loop \<^verbatim>\<open>while (clock_nanosleep(...)) {}\<close> of \<^verbatim>\<open>waitWhileBusy_ReadDisabled\<close>. It
  runs for as long as the sleep returns nonzero, so it need not return: \<open>None\<close>.\<close>

partial_function (option) nanosleep_loop :: "env \<Rightarrow> timespec \<Rightarrow> trace \<Rightarrow> trace option" where
  "nanosleep_loop env deadline tr =
     (if fst (clock_nanosleep env deadline tr) \<noteq> 0
      then nanosleep_loop env deadline (snd (clock_nanosleep env deadline tr))
      else Some (snd (clock_nanosleep env deadline tr)))"

definition waitWhileBusy_ReadDisabled :: "env \<Rightarrow> hd44780DataStruct \<Rightarrow> trace \<Rightarrow> trace option" where
  "waitWhileBusy_ReadDisabled env nodeData tr =
     (let (tsNow, tr) = clock_gettime env tr in
      if timespec_gt (operation_end nodeData) tsNow
      then nanosleep_loop env (operation_end nodeData) tr
      else Some tr)"

text \<open>The test \<^verbatim>\<open>(end.tv_sec - now.tv_sec) * 1000000000l + (end.tv_nsec - now.tv_nsec) > 100000l\<close>
  of the two read-capable waits.\<close>

definition far_away :: "timespec \<Rightarrow> timespec \<Rightarrow> bool" where
  "far_away op_end now =
     ((tv_sec op_end - tv_sec now) * 1000000000 + (tv_nsec op_end - tv_nsec now) > 100000)"

text \<open>What both read-capable waits do before polling: read the clock, sleep once if the
  deadline is far away (the return value of the sleep is not looked at), turn data line 7
  to input, select the busy flag and raise the strobe.\<close>

definition wait_prologue :: "env \<Rightarrow> hd44780DataStruct \<Rightarrow> trace \<Rightarrow> trace" where
  "wait_prologue env nodeData tr =
     (let (now, tr) = clock_gettime env tr;
          tr = (if far_away (operation_end nodeData) now
                then snd (clock_nanosleep env (operation_end nodeData) tr) else tr);
          tr = pinMode (pinDB nodeData ! 7) INPUT tr;
          tr = setStatusPins nodeData False True tr
      in readCycleStart (pinE nodeData) tr)"

text \<open>The polling loop of \<^verbatim>\<open>waitWhileBusy_8\<close>: it runs for as long as data line 7 reads
  other than low. Of the node it uses the strobe pin \<open>e\<close> and the pin \<open>db7\<close> of data line 7.\<close>

partial_function (option) busy_loop_8 :: "env \<Rightarrow> int \<Rightarrow> int \<Rightarrow> trace \<Rightarrow> trace option" where
  "busy_loop_8 env e db7 tr =
     (if fst (digitalRead env db7 tr) \<noteq> LOW
      then busy_loop_8 env e db7
             (readCycleStart e (readCycleEnd e (snd (digitalRead env db7 tr))))
      else Some (snd (digitalRead env db7 tr)))"

definition waitWhileBusy_8 :: "env \<Rightarrow> hd44780DataStruct \<Rightarrow> trace \<Rightarrow> trace option" where
  "waitWhileBusy_8 env nodeData tr =
     (if readEnabled nodeData then
        (case busy_loop_8 env (pinE nodeData) (pinDB nodeData ! 7) (wait_prologue env nodeData tr) of
           None \<Rightarrow> None
         | Some tr \<Rightarrow>
             Some (readCycleEnd (pinE nodeData) (pinMode (pinDB nodeData ! 7) OUTPUT tr)))
      else waitWhileBusy_ReadDisabled env nodeData tr)"

text \<open>The polling loop of \<^verbatim>\<open>waitWhileBusy_4\<close>: each round ends the strobe cycle that was
  sampled, runs a full cycle without sampling, and opens the next cycle.\<close>

partial_function (option) busy_loop_4 :: "env \<Rightarrow> int \<Rightarrow> int \<Rightarrow> trace \<Rightarrow> trace option" where
  "busy_loop_4 env e db7 tr =
     (if fst (digitalRead env db7 tr) \<noteq> LOW
      then busy_loop_4 env e db7
             (readCycleStart e (readCycleEnd e
               (readCycleStart e (readCycleEnd e (snd (digitalRead env db7 tr))))))
      else Some (snd (digitalRead env db7 tr)))"

text \<open>The three loops are run by their defining equations.\<close>

declare nanosleep_loop.simps [code] busy_loop_8.simps [code] busy_loop_4.simps [code]

definition waitWhileBusy_4 :: "env \<Rightarrow> hd44780DataStruct \<Rightarrow> trace \<Rightarrow> trace option" where
  "waitWhileBusy_4 env nodeData tr =
     (if readEnabled nodeData then
        (case busy_loop_4 env (pinE nodeData) (pinDB nodeData ! 7) (wait_prologue env nodeData tr) of
           None \<Rightarrow> None
         | Some tr \<Rightarrow>
             Some (readCycleEnd (pinE nodeData)
                    (readCycleStart (pinE nodeData)
                      (readCycleEnd (pinE nodeData) (pinMode (pinDB nodeData ! 7) OUTPUT tr)))))
      else waitWhileBusy_ReadDisabled env nodeData tr)"

subsection \<open>The write handlers\<close>

text \<open>The loops \<^verbatim>\<open>for (i = lo; i < 8; ++i) digitalWrite(pinDB[i], (data8 >> (i - sh)) & 1)\<close>:
  \<open>is\<close> lists the values of \<open>i\<close> in order.\<close>

definition write_bits :: "hd44780DataStruct \<Rightarrow> 8 word \<Rightarrow> nat list \<Rightarrow> nat \<Rightarrow> trace \<Rightarrow> trace" where
  "write_bits nodeData data8 is sh tr =
     foldl (\<lambda>tr i. digitalWrite (pinDB nodeData ! i) (uint (drop_bit (i - sh) data8 AND 1)) tr) tr is"

text \<open>The choice of the recovery delay, written out twice in the source (in both write
  handlers) with the same text.\<close>

definition busy_delay :: "bool \<Rightarrow> 8 word \<Rightarrow> timespec" where
  "busy_delay RS data8 =
     (if RS then extended_busy_delay
      else if (data8 AND 0xFF) > 0x03 then standard_busy_delay
      else reset_busy_delay)"

definition hd44780DigitalWrite_4 ::
  "env \<Rightarrow> wiringPiNodeStruct \<Rightarrow> int \<Rightarrow> int \<Rightarrow> trace \<Rightarrow> (error + wiringPiNodeStruct \<times> trace) option" where
  "hd44780DigitalWrite_4 env node pin data tr =
     (case dataStruct node of
        None \<Rightarrow> Some (Inl NullPointerDereference)
      | Some nodeData \<Rightarrow>
          (let data8 = (word_of_int data :: 8 word);
               RS = (pin = pinBase node)
           in case waitWhileBusy_4 env nodeData tr of
                None \<Rightarrow> None
              | Some tr \<Rightarrow>
                  (let tr = setStatusPins nodeData RS False tr;
                       tr = writeCycleStart (pinE nodeData) tr;
                       tr = write_bits nodeData data8 [4, 5, 6, 7] 0 tr;
                       tr = writeCycleEnd (pinE nodeData) tr;
                       tr = writeCycleStart (pinE nodeData) tr;
                       tr = write_bits nodeData data8 [4, 5, 6, 7] 4 tr;
                       tr = writeCycleEnd (pinE nodeData) tr;
                       (now, tr) = clock_gettime env tr
                   in Some (Inr (node\<lparr>dataStruct := Some (nodeData\<lparr>operation_end :=
                                       timespec_add now (busy_delay RS data8)\<rparr>)\<rparr>, tr)))))"

definition hd44780DigitalWrite_8 ::
  "env \<Rightarrow> wiringPiNodeStruct \<Rightarrow> int \<Rightarrow> int \<Rightarrow> trace \<Rightarrow> (error + wiringPiNodeStruct \<times> trace) option" where
  "hd44780DigitalWrite_8 env node pin data tr =
     (case dataStruct node of
        None \<Rightarrow> Some (Inl NullPointerDereference)
      | Some nodeData \<Rightarrow>
          (let data8 = (word_of_int data :: 8 word);
               RS = (pin = pinBase node)
           in if \<not> mode8 nodeData then
                (let nodeData = (if \<not> RS \<and> (data8 AND 0xF0) = 0x30
                                 then nodeData\<lparr>mode8 := True\<rparr> else nodeData)
                 in hd44780DigitalWrite_4 env (node\<lparr>dataStruct := Some nodeData\<rparr>) pin (uint data8) tr)
              else
                (let nodeData = (if \<not> RS \<and> (data8 AND 0xF0) = 0x20
                                 then nodeData\<lparr>mode8 := False\<rparr> else nodeData)
                 in case waitWhileBusy_8 env nodeData tr of
                      None \<Rightarrow> None
                    | Some tr \<Rightarrow>
                        (let tr = setStatusPins nodeData RS False tr;
                             tr = writeCycleStart (pinE nodeData) tr;
                             tr = write_bits nodeData data8 [0, 1, 2, 3, 4, 5, 6, 7] 0 tr;
                             tr = writeCycleEnd (pinE nodeData) tr;
                             (now, tr) = clock_gettime env tr
                         in Some (Inr (node\<lparr>dataStruct := Some (nodeData\<lparr>operation_end :=
                                             timespec_add now (busy_delay RS data8)\<rparr>)\<rparr>, tr))))))"

subsection \<open>The read handlers\<close>

text \<open>The loops \<^verbatim>\<open>for (i = lo; i < 8; ++i) pinMode(pinDB[i], m)\<close>.\<close>

definition bus_mode :: "hd44780DataStruct \<Rightarrow> nat list \<Rightarrow> pin_mode \<Rightarrow> trace \<Rightarrow> trace" where
  "bus_mode nodeData is m tr = foldl (\<lambda>tr i. pinMode (pinDB nodeData ! i) m tr) tr is"

text \<open>The sampling loop of the 4-bit read, \<^verbatim>\<open>data = (data << 1) | (bool)digitalRead(pinDB[i])\<close>
  (\<open>shift_in data v\<close> is the right-hand side for the level \<open>v\<close> read),
  and of the 8-bit read, \<^verbatim>\<open>data = (data << 1) | digitalRead(pinDB[i])\<close>, where the level
  read is not normalised. \<open>data\<close> is a \<^verbatim>\<open>uint8_t\<close>: the result of the \<^verbatim>\<open>int\<close> expression is
  cut to 8 bits by the assignment, which is the same as shifting and or-ing 8-bit words.\<close>

definition shift_in :: "8 word \<Rightarrow> int \<Rightarrow> 8 word" where
  "shift_in data v = push_bit 1 data OR of_bool (v \<noteq> 0)"

definition read_bits_4 :: "env \<Rightarrow> hd44780DataStruct \<Rightarrow> nat list \<Rightarrow> 8 word \<times> trace \<Rightarrow> 8 word \<times> trace" where
  "read_bits_4 env nodeData is st =
     foldl (\<lambda>(data, tr) i.
              (shift_in data (fst (digitalRead env (pinDB nodeData ! i) tr)),
               snd (digitalRead env (pinDB nodeData ! i) tr))) st is"

definition read_bits_8 :: "env \<Rightarrow> hd44780DataStruct \<Rightarrow> nat list \<Rightarrow> 8 word \<times> trace \<Rightarrow> 8 word \<times> trace" where
  "read_bits_8 env nodeData is st =
     foldl (\<lambda>(data, tr) i.
              (push_bit 1 data OR word_of_int (fst (digitalRead env (pinDB nodeData ! i) tr)),
               snd (digitalRead env (pinDB nodeData ! i) tr))) st is"

text \<open>The target selection of both read handlers. Reading the memory (\<open>pin\<close> is the
  base pin) waits first; \<^verbatim>\<open>[[gnu::assume(nodeData->readEnabled == true)]]\<close> makes the
  behaviour undefined when the node cannot read, which is the error
  \<open>AssumptionViolated\<close> here.\<close>

definition hd44780DigitalRead_4 ::
  "env \<Rightarrow> wiringPiNodeStruct \<Rightarrow> int \<Rightarrow> trace \<Rightarrow> (error + int \<times> trace) option" where
  "hd44780DigitalRead_4 env node pin tr =
     (case dataStruct node of
        None \<Rightarrow> Some (Inl NullPointerDereference)
      | Some nodeData \<Rightarrow>
          (let tr = bus_mode nodeData [4, 5, 6, 7] INPUT tr in
           if pin = pinBase node \<and> \<not> readEnabled nodeData then Some (Inl AssumptionViolated)
           else
             case (if pin = pinBase node
                   then map_option (setStatusPins nodeData True True) (waitWhileBusy_4 env nodeData tr)
                   else Some (setStatusPins nodeData False True tr)) of
               None \<Rightarrow> None
             | Some tr \<Rightarrow>
                 (let tr = readCycleStart (pinE nodeData) tr;
                      (data, tr) = read_bits_4 env nodeData [7, 6, 5, 4] (0, tr);
                      tr = readCycleEnd (pinE nodeData) tr;
                      tr = readCycleStart (pinE nodeData) tr;
                      (data, tr) = read_bits_4 env nodeData [7, 6, 5, 4] (data, tr);
                      tr = readCycleEnd (pinE nodeData) tr;
                      tr = bus_mode nodeData [4, 5, 6, 7] OUTPUT tr
                  in Some (Inr (uint data, tr)))))"

definition hd44780DigitalRead_8 ::
  "env \<Rightarrow> wiringPiNodeStruct \<Rightarrow> int \<Rightarrow> trace \<Rightarrow> (error + int \<times> trace) option" where
  "hd44780DigitalRead_8 env node pin tr =
     (case dataStruct node of
        None \<Rightarrow> Some (Inl NullPointerDereference)
      | Some nodeData \<Rightarrow>
          (if \<not> mode8 nodeData then hd44780DigitalRead_4 env node pin tr
           else if pin = pinBase node \<and> \<not> readEnabled nodeData then Some (Inl AssumptionViolated)
           else
             (case (if pin = pinBase node
                    then map_option (setStatusPins nodeData True True) (waitWhileBusy_8 env nodeData tr)
                    else Some (setStatusPins nodeData False True tr)) of
                None \<Rightarrow> None
              | Some tr \<Rightarrow>
                  (let tr = bus_mode nodeData [0, 1, 2, 3, 4, 5, 6, 7] INPUT tr;
                       tr = readCycleStart (pinE nodeData) tr;
                       (data, tr) = read_bits_8 env nodeData [7, 6, 5, 4, 3, 2, 1, 0] (0, tr);
                       tr = readCycleEnd (pinE nodeData) tr;
                       tr = bus_mode nodeData [0, 1, 2, 3, 4, 5, 6, 7] OUTPUT tr
                   in Some (Inr (uint data, tr))))))"

subsection \<open>Setting a node up\<close>

definition setupPin :: "int \<Rightarrow> trace \<Rightarrow> trace" where
  "setupPin pin tr = digitalWrite pin LOW (pinMode pin OUTPUT (pullUpDnControl pin PUD_UP tr))"

text \<open>The macro \<^verbatim>\<open>CHECK_PIN(id)\<close>: the state is the flag \<^verbatim>\<open>fail_preconditions\<close> and the
  trace; \<open>name\<close> is the stringified parameter name.\<close>

definition CHECK_PIN :: "env \<Rightarrow> string \<Rightarrow> int \<Rightarrow> bool \<times> trace \<Rightarrow> bool \<times> trace" where
  "CHECK_PIN env name id' st =
     (if id' < 0 \<or> (id' \<ge> 64 \<and> \<not> env_wiringPiFindNode env id')
      then (True, snd st @ [Fprintf (''Error: invalid pin number for '' @ name @ '': '') id'])
      else st)"

text \<open>Modelled from the spec: \<^verbatim>\<open>wiringPiNewNode\<close> is not part of the driver's source. A
  node it returns holds the base pin, no data and no handler of this driver.\<close>

definition fresh_node :: "int \<Rightarrow> wiringPiNodeStruct" where
  "fresh_node base =
     \<lparr>pinBase = base, dataStruct = None,
      node_digitalWrite = NoWriteHandler, node_digitalRead = NoReadHandler\<rparr>"

text \<open>The block of \<^verbatim>\<open>hd44780Setup\<close> that checks the preconditions: the flag and the trace
  after all checks.\<close>

definition check_preconditions ::
  "env \<Rightarrow> bool \<Rightarrow> bool \<Rightarrow> int \<Rightarrow> int \<Rightarrow> int \<Rightarrow> int \<Rightarrow> int \<Rightarrow> int \<Rightarrow> int \<Rightarrow> int \<Rightarrow> int \<Rightarrow> int \<Rightarrow> int \<Rightarrow>
   trace \<Rightarrow> bool \<times> trace" where
  "check_preconditions env readEnabled' mode8Enabled' pinRS' pinRW' pinE'
       pinDB7 pinDB6 pinDB5 pinDB4 pinDB3 pinDB2 pinDB1 pinDB0 tr =
     (let st = CHECK_PIN env ''pinRS'' pinRS' (False, tr);
          st = (if readEnabled' then CHECK_PIN env ''pinRW'' pinRW' st else st);
          st = CHECK_PIN env ''pinE'' pinE' st;
          st = CHECK_PIN env ''pinDB7'' pinDB7 st;
          st = CHECK_PIN env ''pinDB6'' pinDB6 st;
          st = CHECK_PIN env ''pinDB5'' pinDB5 st;
          st = CHECK_PIN env ''pinDB4'' pinDB4 st
      in if mode8Enabled'
         then CHECK_PIN env ''pinDB0'' pinDB0
               (CHECK_PIN env ''pinDB1'' pinDB1
                 (CHECK_PIN env ''pinDB2'' pinDB2
                   (CHECK_PIN env ''pinDB3'' pinDB3 st)))
         else st)"

text \<open>\<^verbatim>\<open>hd44780Setup\<close> returns its \<^verbatim>\<open>int\<close> result, the node as it stands (if one was
  created) and the trace. When \<^verbatim>\<open>wiringPiNewNode\<close> returns null the function prints a
  message and goes on to store into \<^verbatim>\<open>node->dataStruct\<close>: a null pointer dereference.\<close>

definition hd44780Setup ::
  "env \<Rightarrow> int \<Rightarrow> bool \<Rightarrow> bool \<Rightarrow> int \<Rightarrow> int \<Rightarrow> int \<Rightarrow> int \<Rightarrow> int \<Rightarrow> int \<Rightarrow> int \<Rightarrow> int \<Rightarrow> int \<Rightarrow> int \<Rightarrow> int \<Rightarrow>
   trace \<Rightarrow> error + int \<times> wiringPiNodeStruct option \<times> trace" where
  "hd44780Setup env pinBase' readEnabled' mode8Enabled' pinRS' pinRW' pinE'
       pinDB7 pinDB6 pinDB5 pinDB4 pinDB3 pinDB2 pinDB1 pinDB0 tr =
     (let st = check_preconditions env readEnabled' mode8Enabled' pinRS' pinRW' pinE'
                 pinDB7 pinDB6 pinDB5 pinDB4 pinDB3 pinDB2 pinDB1 pinDB0 tr
      in if fst st
         then Inr (EXIT_FAILURE, None, snd st @ [Fputs (''hd44780Setup() failed.'' @ [CHR 0x0A])])
         else
           (let tr = snd st;
                node_ok = env_wiringPiNewNode env tr pinBase' 2;
                tr = tr @ [NewNode pinBase' 2]
            in if \<not> node_ok then Inl NullPointerDereference
               else
                 (let node = fresh_node pinBase';
                      data_ok = env_malloc env tr;
                      tr = tr @ [Malloc]
                  in if \<not> data_ok
                     then Inr (EXIT_FAILURE, Some node,
                               tr @ [Fputs (''Error: unable to allocate node data structure.'' @ [CHR 0x0A])])
                     else
                       (let node = node\<lparr>dataStruct := Some
                                     \<lparr>readEnabled = readEnabled', mode8Enabled = mode8Enabled',
                                      mode8 = mode8Enabled',
                                      pinRS = pinRS', pinRW = pinRW', pinE = pinE',
                                      pinDB = [pinDB0, pinDB1, pinDB2, pinDB3, pinDB4, pinDB5, pinDB6, pinDB7],
                                      operation_end = \<lparr>tv_sec = 0, tv_nsec = 0\<rparr>\<rparr>\<rparr>;
                            tr = setupPin pinRS' tr;
                            tr = (if readEnabled' then setupPin pinRW' tr else tr);
                            tr = setupPin pinE' tr;
                            tr = setupPin pinDB7 tr;
                            tr = setupPin pinDB6 tr;
                            tr = setupPin pinDB5 tr;
                            tr = setupPin pinDB4 tr
                        in if mode8Enabled' then
                             (let tr = setupPin pinDB0 (setupPin pinDB1 (setupPin pinDB2 (setupPin pinDB3 tr)));
                                  node = node\<lparr>node_digitalWrite := Hd44780DigitalWrite_8\<rparr>;
                                  node = (if readEnabled'
                                          then node\<lparr>node_digitalRead := Hd44780DigitalRead_8\<rparr> else node)
                              in Inr (EXIT_SUCCESS, Some node, tr))
                           else
                             (let tr = writeCycleStart pinE' tr;
                                  tr = digitalWrite pinDB5 HIGH tr;
                                  tr = writeCycleEnd pinE' tr;
                                  tr = digitalWrite pinDB5 LOW tr;
                                  tr = delayMicroseconds 37 tr;
                                  node = node\<lparr>node_digitalWrite := Hd44780DigitalWrite_4\<rparr>;
                                  node = (if readEnabled'
                                          then node\<lparr>node_digitalRead := Hd44780DigitalRead_4\<rparr> else node)
                              in Inr (EXIT_SUCCESS, Some node, tr))))))"

subsection \<open>Calling the installed handlers\<close>

text \<open>Modelled from the spec: the dispatch of wiringPi's \<^verbatim>\<open>digitalWrite\<close> and
  \<^verbatim>\<open>digitalRead\<close> to a node is not part of the driver's source. A write or read on a
  pseudo-pin calls the function the node's pointer holds; a node without a handler of
  this driver does nothing and reads low.\<close>

definition call_digitalWrite ::
  "env \<Rightarrow> wiringPiNodeStruct \<Rightarrow> int \<Rightarrow> int \<Rightarrow> trace \<Rightarrow> (error + wiringPiNodeStruct \<times> trace) option" where
  "call_digitalWrite env node pin data tr =
     (case node_digitalWrite node of
        Hd44780DigitalWrite_8 \<Rightarrow> hd44780DigitalWrite_8 env node pin data tr
      | Hd44780DigitalWrite_4 \<Rightarrow> hd44780DigitalWrite_4 env node pin data tr
      | NoWriteHandler \<Rightarrow> Some (Inr (node, tr)))"

definition call_digitalRead ::
  "env \<Rightarrow> wiringPiNodeStruct \<Rightarrow> int \<Rightarrow> trace \<Rightarrow> (error + int \<times> trace) option" where
  "call_digitalRead env node pin tr =
     (case node_digitalRead node of
        Hd44780DigitalRead_8 \<Rightarrow> hd44780DigitalRead_8 env node pin tr
      | Hd44780DigitalRead_4 \<Rightarrow> hd44780DigitalRead_4 env node pin tr
      | NoReadHandler \<Rightarrow> Some (Inr (LOW, tr)))"

subsection \<open>Command bytes\<close>

definition hd44780CMD_FnSet :: "bool \<Rightarrow> bool \<Rightarrow> bool \<Rightarrow> int" where
  "hd44780CMD_FnSet dataLength displayLines font =
     0x20 OR of_bool dataLength * 0x10 OR of_bool displayLines * 0x08 OR of_bool font * 0x04"

section \<open>Bus activity, described\<close>

text \<open>The events a piece of bus protocol consists of, written as lists. The properties
  below compare what the driver's functions add to the trace with these lists.\<close>

definition status_events :: "hd44780DataStruct \<Rightarrow> bool \<Rightarrow> bool \<Rightarrow> trace" where
  "status_events d RS RW =
     [PinWrite (pinRS d) (of_bool RS)]
     @ (if readEnabled d then [PinWrite (pinRW d) (of_bool RW)] else [])
     @ [DelayNs 50]"

text \<open>One write strobe cycle: the strobe goes high, the data lines are driven, and after
  the pulse width the strobe goes low again.\<close>

definition write_strobe :: "int \<Rightarrow> trace \<Rightarrow> trace" where
  "write_strobe e driven = [PinWrite e HIGH] @ driven @ [DelayNs 300, PinWrite e LOW, DelayNs 300]"

text \<open>Bit \<open>i - sh\<close> of the byte driven onto data line \<open>i\<close>, for the lines listed.\<close>

definition drive_lines :: "hd44780DataStruct \<Rightarrow> 8 word \<Rightarrow> nat list \<Rightarrow> nat \<Rightarrow> trace" where
  "drive_lines d b is sh = map (\<lambda>i. PinWrite (pinDB d ! i) (uint (drop_bit (i - sh) b AND 1))) is"

text \<open>The 4-bit encoder: two strobe cycles on lines 4 to 7, high nibble first. The 8-bit
  encoder: one strobe cycle on all eight lines.\<close>

definition encoder_4_events :: "hd44780DataStruct \<Rightarrow> bool \<Rightarrow> 8 word \<Rightarrow> trace" where
  "encoder_4_events d RS b =
     status_events d RS False
     @ write_strobe (pinE d) (drive_lines d b [4, 5, 6, 7] 0)
     @ write_strobe (pinE d) (drive_lines d b [4, 5, 6, 7] 4)"

definition encoder_8_events :: "hd44780DataStruct \<Rightarrow> bool \<Rightarrow> 8 word \<Rightarrow> trace" where
  "encoder_8_events d RS b =
     status_events d RS False
     @ write_strobe (pinE d) (drive_lines d b [0, 1, 2, 3, 4, 5, 6, 7] 0)"

text \<open>A read strobe cycle is opened (strobe high, then the pulse width) and closed
  (strobe low, then the pulse width).\<close>

definition cycle_open :: "int \<Rightarrow> trace" where
  "cycle_open e = [PinWrite e HIGH, DelayNs 300]"

definition cycle_close :: "int \<Rightarrow> trace" where
  "cycle_close e = [PinWrite e LOW, DelayNs 300]"

definition full_cycle :: "int \<Rightarrow> trace" where
  "full_cycle e = cycle_open e @ cycle_close e"

text \<open>What a read-capable wait adds before its first sample, given the time the clock
  shows: the clock is read, there is one sleep if the deadline is far away, line 7 turns
  to input, the busy flag is selected and a strobe cycle is opened.\<close>

definition prologue_events :: "hd44780DataStruct \<Rightarrow> timespec \<Rightarrow> trace" where
  "prologue_events d now =
     [ClockGet]
     @ (if far_away (operation_end d) now then [ClockSleep (operation_end d)] else [])
     @ [PinModeSet (pinDB d ! 7) INPUT]
     @ status_events d False True
     @ cycle_open (pinE d)"

text \<open>One round of the 4-bit poll that found the controller busy: the sample, the end of
  the sampled cycle, a full cycle whose nibble is not sampled, and the next cycle opened.
  After the sample that reads low: line 7 turns to output, the sampled cycle is closed,
  and one more full cycle follows.\<close>

definition busy_round_4 :: "int \<Rightarrow> int \<Rightarrow> trace" where
  "busy_round_4 e db7 = [PinRead db7] @ cycle_close e @ full_cycle e @ cycle_open e"

definition ready_round_4 :: "int \<Rightarrow> int \<Rightarrow> trace" where
  "ready_round_4 e db7 = [PinRead db7, PinModeSet db7 OUTPUT] @ cycle_close e @ full_cycle e"

text \<open>The same for the 8-bit poll, where a round is a single strobe cycle.\<close>

definition busy_round_8 :: "int \<Rightarrow> int \<Rightarrow> trace" where
  "busy_round_8 e db7 = [PinRead db7] @ cycle_close e @ cycle_open e"

definition ready_round_8 :: "int \<Rightarrow> int \<Rightarrow> trace" where
  "ready_round_8 e db7 = [PinRead db7, PinModeSet db7 OUTPUT] @ cycle_close e"

text \<open>\<open>rounds n r\<close> is the round \<open>r\<close> repeated \<open>n\<close> times.\<close>

definition rounds :: "nat \<Rightarrow> trace \<Rightarrow> trace" where
  "rounds n r = concat (replicate n r)"

text \<open>The pin an event addresses, if any.\<close>

fun event_pin :: "event \<Rightarrow> int option" where
  "event_pin (PinWrite p v) = Some p"
| "event_pin (PinRead p) = Some p"
| "event_pin (PinModeSet p m) = Some p"
| "event_pin (PinPull p u) = Some p"
| "event_pin e = None"

definition touched :: "trace \<Rightarrow> int set" where
  "touched tr = set (List.map_filter event_pin tr)"

text \<open>\<open>only_touches allowed tr tr'\<close>: the trace \<open>tr'\<close> continues \<open>tr\<close>, and every pin
  event added addresses a pin in \<open>allowed\<close>.\<close>

definition only_touches :: "int set \<Rightarrow> trace \<Rightarrow> trace \<Rightarrow> bool" where
  "only_touches allowed tr tr' =
     (take (length tr) tr' = tr \<and> touched (drop (length tr) tr') \<subseteq> allowed)"

text \<open>The pins a node's data names for the control lines that the node may drive (the
  read/write line only when the node can read) and for the data lines 4 to 7 and 0 to 3.\<close>

definition ctl_pins :: "hd44780DataStruct \<Rightarrow> int set" where
  "ctl_pins d = {pinRS d, pinE d} \<union> (if readEnabled d then {pinRW d} else {})"

definition bus_hi :: "hd44780DataStruct \<Rightarrow> int set" where
  "bus_hi d = {pinDB d ! 4, pinDB d ! 5, pinDB d ! 6, pinDB d ! 7}"

definition bus_lo :: "hd44780DataStruct \<Rightarrow> int set" where
  "bus_lo d = {pinDB d ! 0, pinDB d ! 1, pinDB d ! 2, pinDB d ! 3}"

text \<open>The pins \<^verbatim>\<open>hd44780Setup\<close> checks, with the names it reports them under, in the order
  of the checks; when a pin is invalid; and the report of one.\<close>

definition referenced_pins ::
  "bool \<Rightarrow> bool \<Rightarrow> int \<Rightarrow> int \<Rightarrow> int \<Rightarrow> int \<Rightarrow> int \<Rightarrow> int \<Rightarrow> int \<Rightarrow> int \<Rightarrow> int \<Rightarrow> int \<Rightarrow> int \<Rightarrow> (string \<times> int) list" where
  "referenced_pins rd m8 pRS pRW pE p7 p6 p5 p4 p3 p2 p1 p0 =
     [(''pinRS'', pRS)] @ (if rd then [(''pinRW'', pRW)] else [])
     @ [(''pinE'', pE), (''pinDB7'', p7), (''pinDB6'', p6), (''pinDB5'', p5), (''pinDB4'', p4)]
     @ (if m8 then [(''pinDB3'', p3), (''pinDB2'', p2), (''pinDB1'', p1), (''pinDB0'', p0)] else [])"

definition invalid_pin :: "env \<Rightarrow> string \<times> int \<Rightarrow> bool" where
  "invalid_pin env np = (snd np < 0 \<or> (snd np \<ge> 64 \<and> \<not> env_wiringPiFindNode env (snd np)))"

definition report :: "string \<times> int \<Rightarrow> event" where
  "report np = Fprintf (''Error: invalid pin number for '' @ fst np @ '': '') (snd np)"

section \<open>Concrete inputs\<close>

text \<open>An environment in which the controller is never busy: every pin reads low, the
  clock stands at zero, a sleep runs to its end, no pseudo-pin is registered and every
  allocation succeeds.\<close>

definition idle_env :: env where
  "idle_env =
     \<lparr>env_digitalRead = (\<lambda>tr pin. LOW),
      env_clock_gettime = (\<lambda>tr. \<lparr>tv_sec = 0, tv_nsec = 0\<rparr>),
      env_clock_nanosleep = (\<lambda>tr deadline. 0),
      env_wiringPiFindNode = (\<lambda>pin. False),
      env_wiringPiNewNode = (\<lambda>tr base n. True),
      env_malloc = (\<lambda>tr. True)\<rparr>"

text \<open>The data of a node on pins RS = 0, RW = 1, E = 2 and data lines 0 to 7 on pins 3 to
  10, as \<^verbatim>\<open>hd44780Setup\<close> fills it in, with the three flags left open; and a node on the
  base pin 64 around it.\<close>

definition demo_data :: "bool \<Rightarrow> bool \<Rightarrow> bool \<Rightarrow> hd44780DataStruct" where
  "demo_data rd m8e m8 =
     \<lparr>readEnabled = rd, mode8Enabled = m8e, mode8 = m8,
      pinRS = 0, pinRW = 1, pinE = 2, pinDB = [3, 4, 5, 6, 7, 8, 9, 10],
      operation_end = \<lparr>tv_sec = 0, tv_nsec = 0\<rparr>\<rparr>"

definition demo_node :: "hd44780DataStruct \<Rightarrow> write_handler \<Rightarrow> read_handler \<Rightarrow> wiringPiNodeStruct" where
  "demo_node d w r = \<lparr>pinBase = 64, dataStruct = Some d, node_digitalWrite = w, node_digitalRead = r\<rparr>"

text \<open>An environment in which the controller is busy for the first \<open>n\<close> samples of a data
  line and ready from then on; otherwise as \<open>idle_env\<close>.\<close>

fun is_sample :: "event \<Rightarrow> bool" where
  "is_sample (PinRead p) = True"
| "is_sample e = False"

definition busy_env :: "nat \<Rightarrow> env" where
  "busy_env n =
     idle_env\<lparr>env_digitalRead := (\<lambda>tr pin. if length (filter is_sample tr) < n then HIGH else LOW)\<rparr>"

text \<open>The number of calls of \<^verbatim>\<open>clock_nanosleep\<close> in a trace.\<close>

fun is_sleep :: "event \<Rightarrow> bool" where
  "is_sleep (ClockSleep t) = True"
| "is_sleep e = False"

definition sleeps :: "trace \<Rightarrow> nat" where
  "sleeps tr = length (filter is_sleep tr)"

text \<open>An environment in which every sleep is interrupted (it returns \<^verbatim>\<open>EINTR\<close>, 4);
  otherwise as \<open>idle_env\<close>.\<close>

definition interrupted_env :: env where
  "interrupted_env = idle_env\<lparr>env_clock_nanosleep := (\<lambda>tr deadline. 4)\<rparr>"

text \<open>An environment in which the first \<open>n\<close> sleeps are interrupted and the next one runs
  to its end; otherwise as \<open>idle_env\<close>.\<close>

definition restless_env :: "nat \<Rightarrow> env" where
  "restless_env n = idle_env\<lparr>env_clock_nanosleep := (\<lambda>tr deadline. if sleeps tr < n then 4 else 0)\<rparr>"

section \<open>A simulated controller\<close>

text \<open>A device on the bus of a node, for the round trip of a byte: the simulated bus
  that latches the driven nibbles. It is wired to the register-select, read/write and
  strobe pins and to data lines 4 to 7. A data line is named by its index, 4 to 7; a
  register holds its bits by index, 0 to 7.

  Each data line has two ends. The host's pin has a direction (\<^verbatim>\<open>pinMode\<close>), an output
  latch (the level last written with \<^verbatim>\<open>digitalWrite\<close>) and a pull resistor
  (\<^verbatim>\<open>pullUpDnControl\<close>); a pin is an input without a pull until it is set up. A line whose
  host pin is an output is at the level of the host's latch, whatever the device presents,
  and that is what a read of the pin returns. A line whose host pin is an input is at the
  level the device presents while the device drives the lines, which it does while the
  strobe is high in read direction; a line that neither end drives is high if the pin
  pulls it up and low otherwise. The three control pins are taken as outputs throughout:
  the driver makes them so when it sets them up and never changes their direction.

  The device starts, as the controller does after power-on, with the 8-bit interface. With
  only lines 4 to 7 wired, the one instruction it can take in that state is function set
  (high nibble \<open>001x\<close>, line 4 giving the interface width), which is how \<^verbatim>\<open>hd44780Setup\<close>
  brings it to the 4-bit interface. With the 4-bit interface, on the falling edge of the
  strobe in write direction it latches the four lines: the first nibble of a transfer is
  held, the second completes the byte, which goes into the register selected by register
  select (instruction or memory); a completed function-set instruction sets the interface
  width. In read direction it presents the high nibble of the selected register, or the
  low nibble in the second cycle of a transfer, and the falling edge of the strobe moves
  on to the other nibble. One nibble phase serves both directions, as in the controller.
  A read with register select low gives the busy flag on line 7 of the first nibble, as
  in the controller; this device completes every operation at once and is never busy.\<close>

record lcd =
  lcd_rs :: bool
  lcd_rw :: bool
  lcd_e :: bool
  lcd_dir :: "nat \<Rightarrow> pin_mode"
  lcd_pull :: "nat \<Rightarrow> pud"
  lcd_drv :: "nat \<Rightarrow> bool"
  lcd_hold :: "nat \<Rightarrow> bool"
  lcd_reg :: "bool \<Rightarrow> nat \<Rightarrow> bool"
  lcd_phase :: bool
  lcd_wide :: bool

definition lcd_init :: lcd where
  "lcd_init =
     \<lparr>lcd_rs = False, lcd_rw = False, lcd_e = False, lcd_dir = (\<lambda>i. INPUT),
      lcd_pull = (\<lambda>i. PUD_OFF), lcd_drv = (\<lambda>i. False), lcd_hold = (\<lambda>i. False), lcd_reg = (\<lambda>r i. False),
      lcd_phase = False, lcd_wide = True\<rparr>"

definition data_line :: "hd44780DataStruct \<Rightarrow> int \<Rightarrow> nat option" where
  "data_line d p =
     (if p = pinDB d ! 7 then Some 7 else if p = pinDB d ! 6 then Some 6
      else if p = pinDB d ! 5 then Some 5 else if p = pinDB d ! 4 then Some 4 else None)"

text \<open>The bit the device presents on line \<open>i\<close> when it drives the lines.\<close>

definition lcd_out :: "lcd \<Rightarrow> nat \<Rightarrow> bool" where
  "lcd_out s i =
     (let j = (if lcd_phase s then i - 4 else i)
      in (lcd_rs s \<or> j \<noteq> 7) \<and> lcd_reg s (lcd_rs s) j)"

text \<open>The level of line \<open>i\<close>.\<close>

definition line_level :: "lcd \<Rightarrow> nat \<Rightarrow> bool" where
  "line_level s i =
     (if lcd_dir s i = OUTPUT then lcd_drv s i
      else if lcd_e s \<and> lcd_rw s then lcd_out s i
      else lcd_pull s i = PUD_UP)"

text \<open>A high nibble \<open>001x\<close>: the instruction function set.\<close>

definition function_set :: "(nat \<Rightarrow> bool) \<Rightarrow> bool" where
  "function_set hi = (\<not> hi 7 \<and> \<not> hi 6 \<and> hi 5)"

definition strobe_fall :: "lcd \<Rightarrow> lcd" where
  "strobe_fall s =
     (if lcd_rw s then (if lcd_wide s then s else s\<lparr>lcd_phase := \<not> lcd_phase s\<rparr>)
      else if lcd_wide s then
        (if \<not> lcd_rs s \<and> function_set (line_level s) then s\<lparr>lcd_wide := line_level s 4\<rparr> else s)
      else if \<not> lcd_phase s then s\<lparr>lcd_hold := line_level s, lcd_phase := True\<rparr>
      else s\<lparr>lcd_reg := (lcd_reg s)(lcd_rs s := (\<lambda>i. if 4 \<le> i then lcd_hold s i else line_level s (i + 4))),
             lcd_phase := False,
             lcd_wide := (\<not> lcd_rs s \<and> function_set (lcd_hold s) \<and> lcd_hold s 4)\<rparr>)"

fun lcd_step :: "hd44780DataStruct \<Rightarrow> lcd \<Rightarrow> event \<Rightarrow> lcd" where
  "lcd_step d s (PinWrite p v) =
     (if p = pinE d then (if lcd_e s \<and> v = LOW then strobe_fall s else s)\<lparr>lcd_e := (v \<noteq> LOW)\<rparr>
      else if p = pinRS d then s\<lparr>lcd_rs := (v \<noteq> LOW)\<rparr>
      else if p = pinRW d then s\<lparr>lcd_rw := (v \<noteq> LOW)\<rparr>
      else (case data_line d p of
              Some i \<Rightarrow> s\<lparr>lcd_drv := (lcd_drv s)(i := (v \<noteq> LOW))\<rparr>
            | None \<Rightarrow> s))"
| "lcd_step d s (PinModeSet p m) =
     (case data_line d p of
        Some i \<Rightarrow> s\<lparr>lcd_dir := (lcd_dir s)(i := m)\<rparr>
      | None \<Rightarrow> s)"
| "lcd_step d s (PinPull p u) =
     (case data_line d p of
        Some i \<Rightarrow> s\<lparr>lcd_pull := (lcd_pull s)(i := u)\<rparr>
      | None \<Rightarrow> s)"
| "lcd_step d s e = s"

definition lcd_run :: "hd44780DataStruct \<Rightarrow> trace \<Rightarrow> lcd" where
  "lcd_run d tr = foldl (lcd_step d) lcd_init tr"

text \<open>The level a read of pin \<open>p\<close> returns.\<close>

definition lcd_level :: "hd44780DataStruct \<Rightarrow> lcd \<Rightarrow> int \<Rightarrow> int" where
  "lcd_level d s p =
     (case data_line d p of
        Some i \<Rightarrow> of_bool (line_level s i)
      | None \<Rightarrow> LOW)"

text \<open>The environment with this device on the pins of \<open>d\<close>, with any clock and any sleep.\<close>

definition lcd_env :: "hd44780DataStruct \<Rightarrow> (trace \<Rightarrow> timespec) \<Rightarrow> (trace \<Rightarrow> timespec \<Rightarrow> int) \<Rightarrow> env" where
  "lcd_env d clk slp =
     \<lparr>env_digitalRead = (\<lambda>tr p. lcd_level d (lcd_run d tr) p),
      env_clock_gettime = clk,
      env_clock_nanosleep = slp,
      env_wiringPiFindNode = (\<lambda>pin. False),
      env_wiringPiNewNode = (\<lambda>tr base n. True),
      env_malloc = (\<lambda>tr. True)\<rparr>"

section \<open>Properties\<close>

subsection \<open>What each function adds to the trace\<close>

lemma setStatusPins_events: "setStatusPins d RS RW tr = tr @ status_events d RS RW"
  by (simp add: setStatusPins_def status_events_def digitalWrite_def delayNanoseconds_def)

lemma writeCycleStart_events: "writeCycleStart e tr = tr @ [PinWrite e HIGH]"
  by (simp add: writeCycleStart_def digitalWrite_def)

lemma writeCycleEnd_events: "writeCycleEnd e tr = tr @ [DelayNs 300, PinWrite e LOW, DelayNs 300]"
  by (simp add: writeCycleEnd_def digitalWrite_def delayNanoseconds_def enable_duration_def)

lemma readCycleStart_events: "readCycleStart e tr = tr @ cycle_open e"
  by (simp add: readCycleStart_def cycle_open_def digitalWrite_def delayNanoseconds_def enable_duration_def)

lemma readCycleEnd_events: "readCycleEnd e tr = tr @ cycle_close e"
  by (simp add: readCycleEnd_def cycle_close_def digitalWrite_def delayNanoseconds_def enable_duration_def)

lemma write_bits_events: "write_bits d b is sh tr = tr @ drive_lines d b is sh"
  by (induction "is" arbitrary: tr) (simp_all add: write_bits_def drive_lines_def digitalWrite_def)

lemma bus_mode_events: "bus_mode d is m tr = tr @ map (\<lambda>i. PinModeSet (pinDB d ! i) m) is"
  by (induction "is" arbitrary: tr) (simp_all add: bus_mode_def pinMode_def)

lemma wait_prologue_events:
  "wait_prologue env d tr = tr @ prologue_events d (env_clock_gettime env tr)"
  by (simp add: wait_prologue_def prologue_events_def clock_gettime_def clock_nanosleep_def
      pinMode_def setStatusPins_events readCycleStart_events)

lemma write_4_unfold:
  assumes "dataStruct node = Some d"
  shows "hd44780DigitalWrite_4 env node pin data tr =
    (case waitWhileBusy_4 env d tr of
       None \<Rightarrow> None
     | Some tw \<Rightarrow>
         Some (Inr (node\<lparr>dataStruct := Some (d\<lparr>operation_end :=
                      timespec_add (env_clock_gettime env (tw @ encoder_4_events d (pin = pinBase node) (word_of_int data)))
                        (busy_delay (pin = pinBase node) (word_of_int data))\<rparr>)\<rparr>,
                    tw @ encoder_4_events d (pin = pinBase node) (word_of_int data) @ [ClockGet])))"
  using assms
  by (simp add: hd44780DigitalWrite_4_def encoder_4_events_def write_strobe_def
      setStatusPins_events writeCycleStart_events writeCycleEnd_events write_bits_events
      clock_gettime_def Let_def split: option.split)



lemma status_events_mode8 [simp]: "status_events (d\<lparr>mode8 := m\<rparr>) RS RW = status_events d RS RW"
  by (simp add: status_events_def)

lemma drive_lines_mode8 [simp]: "drive_lines (d\<lparr>mode8 := m\<rparr>) b is sh = drive_lines d b is sh"
  by (simp add: drive_lines_def)

lemma prologue_events_mode8 [simp]: "prologue_events (d\<lparr>mode8 := m\<rparr>) now = prologue_events d now"
  by (simp add: prologue_events_def)

lemma encoder_4_events_mode8 [simp]: "encoder_4_events (d\<lparr>mode8 := m\<rparr>) RS b = encoder_4_events d RS b"
  by (simp add: encoder_4_events_def)

lemma encoder_8_events_mode8 [simp]: "encoder_8_events (d\<lparr>mode8 := m\<rparr>) RS b = encoder_8_events d RS b"
  by (simp add: encoder_8_events_def)

lemma waitWhileBusy_ReadDisabled_mode8 [simp]:
  "waitWhileBusy_ReadDisabled env (d\<lparr>mode8 := m\<rparr>) tr = waitWhileBusy_ReadDisabled env d tr"
  by (simp add: waitWhileBusy_ReadDisabled_def clock_gettime_def)

lemma waitWhileBusy_8_mode8 [simp]: "waitWhileBusy_8 env (d\<lparr>mode8 := m\<rparr>) tr = waitWhileBusy_8 env d tr"
  by (simp add: waitWhileBusy_8_def wait_prologue_events cong: option.case_cong)

lemma waitWhileBusy_4_mode8 [simp]: "waitWhileBusy_4 env (d\<lparr>mode8 := m\<rparr>) tr = waitWhileBusy_4 env d tr"
  by (simp add: waitWhileBusy_4_def wait_prologue_events cong: option.case_cong)

lemma write_8_body:
  assumes "dataStruct node = Some d" "mode8 d"
  shows "hd44780DigitalWrite_8 env node pin data tr =
       (case waitWhileBusy_8 env d tr of
          None \<Rightarrow> None
        | Some tw \<Rightarrow>
            Some (Inr (node\<lparr>dataStruct := Some (d\<lparr>mode8 := \<not> (pin \<noteq> pinBase node \<and> (word_of_int data :: 8 word) AND 0xF0 = 0x20),
                           operation_end :=
                         timespec_add (env_clock_gettime env (tw @ encoder_8_events d (pin = pinBase node) (word_of_int data)))
                           (busy_delay (pin = pinBase node) (word_of_int data))\<rparr>)\<rparr>,
                       tw @ encoder_8_events d (pin = pinBase node) (word_of_int data) @ [ClockGet])))"
  using assms
  by (simp add: hd44780DigitalWrite_8_def encoder_8_events_def write_strobe_def
      setStatusPins_events writeCycleStart_events writeCycleEnd_events write_bits_events
      clock_gettime_def Let_def split: option.split)

lemma write_8_delegates:
  assumes "dataStruct node = Some d" "\<not> mode8 d"
  shows "hd44780DigitalWrite_8 env node pin data tr =
       hd44780DigitalWrite_4 env
         (node\<lparr>dataStruct := Some (d\<lparr>mode8 := (pin \<noteq> pinBase node \<and> (word_of_int data :: 8 word) AND 0xF0 = 0x30)\<rparr>)\<rparr>) pin data tr"
proof -
  have low: "(word_of_int (uint (word_of_int data :: 8 word)) :: 8 word) = word_of_int data"
    by simp
  have w4: "hd44780DigitalWrite_4 env n pin (uint (word_of_int data :: 8 word)) tr = hd44780DigitalWrite_4 env n pin data tr" for n
    unfolding hd44780DigitalWrite_4_def low by (rule refl)
  have same: "d\<lparr>mode8 := False\<rparr> = d" using assms by simp
  show ?thesis using assms
    by (simp add: hd44780DigitalWrite_8_def Let_def w4 same)
qed


lemma and_ff: "(w :: 8 word) AND 0xFF = w"
proof -
  have "(0xFF :: 8 word) = - 1" by simp
  then show ?thesis by (simp only: and.right_neutral)
qed

lemma byte_gt_3: "((word_of_int data :: 8 word) > 3) = (data mod 256 > 3)"
  by (simp add: word_less_def uint_word_of_int take_bit_eq_mod)

lemma busy_delay_by_value:
  "busy_delay RS (word_of_int data) =
     (if RS then extended_busy_delay
      else if data mod 256 \<le> 3 then reset_busy_delay else standard_busy_delay)"
  by (simp add: busy_delay_def and_ff byte_gt_3)

lemma waitWhileBusy_8_idle: "\<not> readEnabled d \<Longrightarrow> \<not> timespec_gt (operation_end d) (env_clock_gettime env tr)
  \<Longrightarrow> waitWhileBusy_8 env d tr = Some (tr @ [ClockGet])"
  by (simp add: waitWhileBusy_8_def waitWhileBusy_ReadDisabled_def clock_gettime_def)

lemma waitWhileBusy_4_idle: "\<not> readEnabled d \<Longrightarrow> \<not> timespec_gt (operation_end d) (env_clock_gettime env tr)
  \<Longrightarrow> waitWhileBusy_4 env d tr = Some (tr @ [ClockGet])"
  by (simp add: waitWhileBusy_4_def waitWhileBusy_ReadDisabled_def clock_gettime_def)

lemma demo_node_sel [simp]:
  "dataStruct (demo_node d w r) = Some d" "pinBase (demo_node d w r) = 64"
  "node_digitalWrite (demo_node d w r) = w" "node_digitalRead (demo_node d w r) = r"
  "(demo_node d w r)\<lparr>dataStruct := Some d'\<rparr> = demo_node d' w r"
  by (simp_all add: demo_node_def)

lemma rounds_simps [simp]: "rounds 0 r = []" "rounds (Suc n) r = r @ rounds n r"
  by (simp_all add: rounds_def)

lemma busy_loop_4_rounds:
  assumes "\<forall>k<n. env_digitalRead env (tr @ rounds k (busy_round_4 e db7)) db7 \<noteq> LOW"
    and "env_digitalRead env (tr @ rounds n (busy_round_4 e db7)) db7 = LOW"
  shows "busy_loop_4 env e db7 tr = Some (tr @ rounds n (busy_round_4 e db7) @ [PinRead db7])"
  using assms
proof (induction n arbitrary: tr)
  case 0
  then show ?case by (subst busy_loop_4.simps) (simp add: digitalRead_def)
next
  case (Suc n)
  from Suc.prems(1) have first: "env_digitalRead env tr db7 \<noteq> LOW" by fastforce
  have step: "busy_loop_4 env e db7 tr = busy_loop_4 env e db7 (tr @ busy_round_4 e db7)"
    by (subst busy_loop_4.simps)
       (simp add: first digitalRead_def busy_round_4_def full_cycle_def
          readCycleStart_events readCycleEnd_events)
  have "busy_loop_4 env e db7 (tr @ busy_round_4 e db7) =
          Some ((tr @ busy_round_4 e db7) @ rounds n (busy_round_4 e db7) @ [PinRead db7])"
  proof (rule Suc.IH)
    show "\<forall>k<n. env_digitalRead env ((tr @ busy_round_4 e db7) @ rounds k (busy_round_4 e db7)) db7 \<noteq> LOW"
      using Suc.prems(1) by (metis Suc_less_eq append.assoc rounds_simps(2))
    show "env_digitalRead env ((tr @ busy_round_4 e db7) @ rounds n (busy_round_4 e db7)) db7 = LOW"
      using Suc.prems(2) by simp
  qed
  with step show ?case by simp
qed

lemma busy_loop_8_rounds:
  assumes "\<forall>k<n. env_digitalRead env (tr @ rounds k (busy_round_8 e db7)) db7 \<noteq> LOW"
    and "env_digitalRead env (tr @ rounds n (busy_round_8 e db7)) db7 = LOW"
  shows "busy_loop_8 env e db7 tr = Some (tr @ rounds n (busy_round_8 e db7) @ [PinRead db7])"
  using assms
proof (induction n arbitrary: tr)
  case 0
  then show ?case by (subst busy_loop_8.simps) (simp add: digitalRead_def)
next
  case (Suc n)
  from Suc.prems(1) have first: "env_digitalRead env tr db7 \<noteq> LOW" by fastforce
  have step: "busy_loop_8 env e db7 tr = busy_loop_8 env e db7 (tr @ busy_round_8 e db7)"
    by (subst busy_loop_8.simps)
       (simp add: first digitalRead_def busy_round_8_def
          readCycleStart_events readCycleEnd_events)
  have "busy_loop_8 env e db7 (tr @ busy_round_8 e db7) =
          Some ((tr @ busy_round_8 e db7) @ rounds n (busy_round_8 e db7) @ [PinRead db7])"
  proof (rule Suc.IH)
    show "\<forall>k<n. env_digitalRead env ((tr @ busy_round_8 e db7) @ rounds k (busy_round_8 e db7)) db7 \<noteq> LOW"
      using Suc.prems(1) by (metis Suc_less_eq append.assoc rounds_simps(2))
    show "env_digitalRead env ((tr @ busy_round_8 e db7) @ rounds n (busy_round_8 e db7)) db7 = LOW"
      using Suc.prems(2) by simp
  qed
  with step show ?case by simp
qed


lemma waitWhileBusy_4_ready:
  assumes "readEnabled d"
    and "env_digitalRead env (tr @ prologue_events d (env_clock_gettime env tr)) (pinDB d ! 7) = LOW"
  shows "waitWhileBusy_4 env d tr =
           Some (tr @ prologue_events d (env_clock_gettime env tr) @ ready_round_4 (pinE d) (pinDB d ! 7))"
proof -
  have "busy_loop_4 env (pinE d) (pinDB d ! 7) (tr @ prologue_events d (env_clock_gettime env tr)) =
          Some ((tr @ prologue_events d (env_clock_gettime env tr))
                 @ rounds 0 (busy_round_4 (pinE d) (pinDB d ! 7)) @ [PinRead (pinDB d ! 7)])"
    using assms(2) by (intro busy_loop_4_rounds) simp_all
  then show ?thesis using assms(1)
    by (simp add: waitWhileBusy_4_def wait_prologue_events ready_round_4_def full_cycle_def
        readCycleStart_events readCycleEnd_events pinMode_def)
qed

lemma waitWhileBusy_8_ready:
  assumes "readEnabled d"
    and "env_digitalRead env (tr @ prologue_events d (env_clock_gettime env tr)) (pinDB d ! 7) = LOW"
  shows "waitWhileBusy_8 env d tr =
           Some (tr @ prologue_events d (env_clock_gettime env tr) @ ready_round_8 (pinE d) (pinDB d ! 7))"
proof -
  have "busy_loop_8 env (pinE d) (pinDB d ! 7) (tr @ prologue_events d (env_clock_gettime env tr)) =
          Some ((tr @ prologue_events d (env_clock_gettime env tr))
                 @ rounds 0 (busy_round_8 (pinE d) (pinDB d ! 7)) @ [PinRead (pinDB d ! 7)])"
    using assms(2) by (intro busy_loop_8_rounds) simp_all
  then show ?thesis using assms(1)
    by (simp add: waitWhileBusy_8_def wait_prologue_events ready_round_8_def
        readCycleStart_events readCycleEnd_events pinMode_def)
qed

lemma demo_data_sel [simp]:
  "readEnabled (demo_data rd m8e m8) = rd" "mode8Enabled (demo_data rd m8e m8) = m8e"
  "mode8 (demo_data rd m8e m8) = m8" "pinRS (demo_data rd m8e m8) = 0"
  "pinRW (demo_data rd m8e m8) = 1" "pinE (demo_data rd m8e m8) = 2"
  "pinDB (demo_data rd m8e m8) = [3, 4, 5, 6, 7, 8, 9, 10]"
  "operation_end (demo_data rd m8e m8) = \<lparr>tv_sec = 0, tv_nsec = 0\<rparr>"
  "(demo_data rd m8e m8)\<lparr>mode8 := x\<rparr> = demo_data rd m8e x"
  by (simp_all add: demo_data_def)

lemma idle_env_sel [simp]:
  "env_digitalRead idle_env tr pin = LOW"
  "env_clock_gettime idle_env tr = \<lparr>tv_sec = 0, tv_nsec = 0\<rparr>"
  "env_clock_nanosleep idle_env tr t = 0"
  "env_wiringPiFindNode idle_env pin = False"
  "env_wiringPiNewNode idle_env tr base n = True"
  "env_malloc idle_env tr = True"
  by (simp_all add: idle_env_def)

lemma demo_wait_idle [simp]:
  "waitWhileBusy_8 idle_env (demo_data False m8e m8) tr = Some (tr @ [ClockGet])"
  "waitWhileBusy_4 idle_env (demo_data False m8e m8) tr = Some (tr @ [ClockGet])"
  by (simp_all add: waitWhileBusy_8_idle waitWhileBusy_4_idle timespec_gt_def)

lemma demo_write_4:
  "hd44780DigitalWrite_4 idle_env (demo_node (demo_data False m8e m8) w r) pin data tr =
     Some (Inr (demo_node ((demo_data False m8e m8)\<lparr>operation_end :=
                   timespec_add \<lparr>tv_sec = 0, tv_nsec = 0\<rparr> (busy_delay (pin = 64) (word_of_int data))\<rparr>) w r,
                tr @ [ClockGet] @ encoder_4_events (demo_data False m8e m8) (pin = 64) (word_of_int data) @ [ClockGet]))"
  by (simp add: write_4_unfold [where d = "demo_data False m8e m8"])

lemma demo_write_8_in_4:
  "hd44780DigitalWrite_8 idle_env (demo_node (demo_data False m8e False) w r) pin data tr =
     Some (Inr (demo_node ((demo_data False m8e (pin \<noteq> 64 \<and> (word_of_int data :: 8 word) AND 0xF0 = 0x30))\<lparr>operation_end :=
                   timespec_add \<lparr>tv_sec = 0, tv_nsec = 0\<rparr> (busy_delay (pin = 64) (word_of_int data))\<rparr>) w r,
                tr @ [ClockGet] @ encoder_4_events (demo_data False m8e False) (pin = 64) (word_of_int data) @ [ClockGet]))"
  using encoder_4_events_mode8 [where d = "demo_data False m8e False"]
  by (simp add: write_8_delegates [where d = "demo_data False m8e False"] demo_write_4)

lemma demo_write_8_in_8:
  "hd44780DigitalWrite_8 idle_env (demo_node (demo_data False m8e True) w r) pin data tr =
     Some (Inr (demo_node ((demo_data False m8e (\<not> (pin \<noteq> 64 \<and> (word_of_int data :: 8 word) AND 0xF0 = 0x20)))\<lparr>operation_end :=
                   timespec_add \<lparr>tv_sec = 0, tv_nsec = 0\<rparr> (busy_delay (pin = 64) (word_of_int data))\<rparr>) w r,
                tr @ [ClockGet] @ encoder_8_events (demo_data False m8e True) (pin = 64) (word_of_int data) @ [ClockGet]))"
proof -
  have upd: "(demo_data False m8e True)\<lparr>mode8 := x, operation_end := t\<rparr> = (demo_data False m8e x)\<lparr>operation_end := t\<rparr>" for x t
    by (simp add: demo_data_def)
  show ?thesis
    by (simp add: write_8_body [where d = "demo_data False m8e True"] upd)
qed

lemma CHECK_PIN_report:
  "CHECK_PIN env name p st =
     (fst st \<or> invalid_pin env (name, p),
      snd st @ map report (filter (invalid_pin env) [(name, p)]))"
  by (cases st) (auto simp add: CHECK_PIN_def invalid_pin_def report_def)

lemma CHECK_PIN_fold:
  "foldl (\<lambda>st np. CHECK_PIN env (fst np) (snd np) st) st refs =
     (fst st \<or> (\<exists>np \<in> set refs. invalid_pin env np),
      snd st @ map report (filter (invalid_pin env) refs))"
proof (induction refs arbitrary: st)
  case Nil
  then show ?case by simp
next
  case (Cons np refs)
  let ?st = "CHECK_PIN env (fst np) (snd np) st"
  have "foldl (\<lambda>st np. CHECK_PIN env (fst np) (snd np) st) st (np # refs) =
          foldl (\<lambda>st np. CHECK_PIN env (fst np) (snd np) st) ?st refs"
    by simp
  also have "\<dots> = (fst ?st \<or> (\<exists>np \<in> set refs. invalid_pin env np),
                     snd ?st @ map report (filter (invalid_pin env) refs))"
    by (rule Cons.IH)
  also have "\<dots> = (fst st \<or> (\<exists>np \<in> set (np # refs). invalid_pin env np),
                     snd st @ map report (filter (invalid_pin env) (np # refs)))"
    using CHECK_PIN_report [of env "fst np" "snd np" st] by auto
  finally show ?case .
qed

lemma check_preconditions_fold:
  "check_preconditions env rd m8 pRS pRW pE p7 p6 p5 p4 p3 p2 p1 p0 tr =
     foldl (\<lambda>st np. CHECK_PIN env (fst np) (snd np) st) (False, tr)
       (referenced_pins rd m8 pRS pRW pE p7 p6 p5 p4 p3 p2 p1 p0)"
  by (cases rd; cases m8) (simp_all add: check_preconditions_def referenced_pins_def Let_def)

lemma check_preconditions_report:
  "check_preconditions env rd m8 pRS pRW pE p7 p6 p5 p4 p3 p2 p1 p0 tr =
     ((\<exists>np \<in> set (referenced_pins rd m8 pRS pRW pE p7 p6 p5 p4 p3 p2 p1 p0). invalid_pin env np),
      tr @ map report (filter (invalid_pin env) (referenced_pins rd m8 pRS pRW pE p7 p6 p5 p4 p3 p2 p1 p0)))"
  by (simp add: check_preconditions_fold CHECK_PIN_fold)

lemma setup_null_node:
  assumes "\<not> (\<exists>np \<in> set (referenced_pins rd m8 pRS pRW pE p7 p6 p5 p4 p3 p2 p1 p0). invalid_pin env np)"
    and "\<not> env_wiringPiNewNode env tr base 2"
  shows "hd44780Setup env base rd m8 pRS pRW pE p7 p6 p5 p4 p3 p2 p1 p0 tr = Inl NullPointerDereference"
  using assms by (simp add: hd44780Setup_def check_preconditions_report Let_def)

lemma setup_no_data:
  assumes "\<not> (\<exists>np \<in> set (referenced_pins rd m8 pRS pRW pE p7 p6 p5 p4 p3 p2 p1 p0). invalid_pin env np)"
    and "env_wiringPiNewNode env tr base 2"
    and "\<not> env_malloc env (tr @ [NewNode base 2])"
  shows "hd44780Setup env base rd m8 pRS pRW pE p7 p6 p5 p4 p3 p2 p1 p0 tr =
           Inr (EXIT_FAILURE, Some (fresh_node base),
                tr @ [NewNode base 2, Malloc,
                      Fputs (''Error: unable to allocate node data structure.'' @ [CHR 0x0A])])"
  using assms by (simp add: hd44780Setup_def check_preconditions_report Let_def)

lemma touched_simps [simp]:
  "touched [] = {}"
  "touched (a @ b) = touched a \<union> touched b"
  "touched (PinWrite p v # tr) = insert p (touched tr)"
  "touched (PinRead p # tr) = insert p (touched tr)"
  "touched (PinModeSet p m # tr) = insert p (touched tr)"
  "touched (PinPull p u # tr) = insert p (touched tr)"
  "touched (DelayNs n # tr) = touched tr"
  "touched (DelayUs n # tr) = touched tr"
  "touched (ClockGet # tr) = touched tr"
  "touched (ClockSleep t # tr) = touched tr"
  "touched (Fprintf s i # tr) = touched tr"
  "touched (Fputs s # tr) = touched tr"
  "touched (NewNode base k # tr) = touched tr"
  "touched (Malloc # tr) = touched tr"
  by (auto simp add: touched_def List.map_filter_def)

lemma only_touches_append [simp]: "only_touches A tr (tr @ new) = (touched new \<subseteq> A)"
  by (simp add: only_touches_def)

lemma only_touches_refl [simp]: "only_touches A tr tr"
  by (simp add: only_touches_def)

lemma only_touches_ex: "only_touches A tr tr' = (\<exists>new. tr' = tr @ new \<and> touched new \<subseteq> A)"
  by (auto simp add: only_touches_def) (metis append_take_drop_id)

lemma only_touches_trans:
  "only_touches A tr tr1 \<Longrightarrow> only_touches A tr1 tr2 \<Longrightarrow> only_touches A tr tr2"
  by (auto simp add: only_touches_ex)

lemma only_touches_mono: "only_touches A tr tr' \<Longrightarrow> A \<subseteq> B \<Longrightarrow> only_touches B tr tr'"
  by (auto simp add: only_touches_ex)

lemma touched_cycle [simp]:
  "touched (cycle_open e) = {e}" "touched (cycle_close e) = {e}" "touched (full_cycle e) = {e}"
  by (simp_all add: cycle_open_def cycle_close_def full_cycle_def)

lemma touched_status: "touched (status_events d RS RW) \<subseteq> ctl_pins d"
  by (simp add: status_events_def ctl_pins_def)

lemma touched_drive_lines: "touched (drive_lines d b is sh) = (\<lambda>i. pinDB d ! i) ` set is"
  by (induction "is") (simp_all add: drive_lines_def)

lemma touched_bus_mode: "touched (map (\<lambda>i. PinModeSet (pinDB d ! i) m) is) = (\<lambda>i. pinDB d ! i) ` set is"
  by (induction "is") simp_all

lemma touched_prologue: "touched (prologue_events d now) \<subseteq> ctl_pins d \<union> {pinDB d ! 7}"
  using touched_status [of d False True]
  by (auto simp add: prologue_events_def ctl_pins_def)

lemma nanosleep_loop_frame:
  assumes "nanosleep_loop env deadline tr = Some tr'"
  shows "only_touches {} tr tr'"
  using assms
proof (induct rule: nanosleep_loop.raw_induct)
  case (1 loop env deadline tr tr')
  show ?case
  proof (cases "fst (clock_nanosleep env deadline tr) \<noteq> 0")
    case True
    with 1(2) have approx: "loop env deadline (tr @ [ClockSleep deadline]) = Some tr'"
      by (simp add: clock_nanosleep_def)
    from 1(3) True have "nanosleep_loop env deadline (tr @ [ClockSleep deadline]) = Some tr'"
      by (subst (asm) nanosleep_loop.simps) (simp add: clock_nanosleep_def)
    from 1(1) [OF approx this] show ?thesis
      by (rule only_touches_trans [rotated]) simp
  next
    case False
    with 1(2) show ?thesis by (auto simp add: clock_nanosleep_def)
  qed
qed (fact assms)

lemma busy_loop_4_frame:
  assumes "busy_loop_4 env e db7 tr = Some tr'"
  shows "only_touches {e, db7} tr tr'"
  using assms
proof (induct rule: busy_loop_4.raw_induct)
  case (1 loop env e db7 tr tr')
  show ?case
  proof (cases "fst (digitalRead env db7 tr) \<noteq> 0")
    case True
    with 1(2) have approx: "loop env e db7 (tr @ busy_round_4 e db7) = Some tr'"
      by (simp add: digitalRead_def busy_round_4_def full_cycle_def readCycleStart_events readCycleEnd_events)
    from 1(3) True have "busy_loop_4 env e db7 (tr @ busy_round_4 e db7) = Some tr'"
      by (subst (asm) busy_loop_4.simps)
         (simp add: digitalRead_def busy_round_4_def full_cycle_def readCycleStart_events readCycleEnd_events)
    from 1(1) [OF approx this] show ?thesis
      by (rule only_touches_trans [rotated]) (simp add: busy_round_4_def)
  next
    case False
    with 1(2) show ?thesis by (auto simp add: digitalRead_def)
  qed
qed (fact assms)

lemma busy_loop_8_frame:
  assumes "busy_loop_8 env e db7 tr = Some tr'"
  shows "only_touches {e, db7} tr tr'"
  using assms
proof (induct rule: busy_loop_8.raw_induct)
  case (1 loop env e db7 tr tr')
  show ?case
  proof (cases "fst (digitalRead env db7 tr) \<noteq> 0")
    case True
    with 1(2) have approx: "loop env e db7 (tr @ busy_round_8 e db7) = Some tr'"
      by (simp add: digitalRead_def busy_round_8_def readCycleStart_events readCycleEnd_events)
    from 1(3) True have "busy_loop_8 env e db7 (tr @ busy_round_8 e db7) = Some tr'"
      by (subst (asm) busy_loop_8.simps)
         (simp add: digitalRead_def busy_round_8_def readCycleStart_events readCycleEnd_events)
    from 1(1) [OF approx this] show ?thesis
      by (rule only_touches_trans [rotated]) (simp add: busy_round_8_def)
  next
    case False
    with 1(2) show ?thesis by (auto simp add: digitalRead_def)
  qed
qed (fact assms)

lemma waitWhileBusy_ReadDisabled_frame:
  "waitWhileBusy_ReadDisabled env d tr = Some tr' \<Longrightarrow> only_touches {} tr tr'"
proof -
  assume r: "waitWhileBusy_ReadDisabled env d tr = Some tr'"
  show ?thesis
  proof (cases "timespec_gt (operation_end d) (env_clock_gettime env tr)")
    case True
    with r have "nanosleep_loop env (operation_end d) (tr @ [ClockGet]) = Some tr'"
      by (simp add: waitWhileBusy_ReadDisabled_def clock_gettime_def)
    from nanosleep_loop_frame [OF this] show ?thesis
      by (rule only_touches_trans [rotated]) simp
  next
    case False
    with r show ?thesis
      by (auto simp add: waitWhileBusy_ReadDisabled_def clock_gettime_def)
  qed
qed

lemma waitWhileBusy_4_frame:
  assumes r: "waitWhileBusy_4 env d tr = Some tr'"
  shows "only_touches (ctl_pins d \<union> {pinDB d ! 7}) tr tr'"
proof (cases "readEnabled d")
  case True
  with r obtain t where loop: "busy_loop_4 env (pinE d) (pinDB d ! 7) (tr @ prologue_events d (env_clock_gettime env tr)) = Some t"
    and tr': "tr' = t @ [PinModeSet (pinDB d ! 7) OUTPUT] @ cycle_close (pinE d) @ full_cycle (pinE d)"
    by (auto simp add: waitWhileBusy_4_def wait_prologue_events full_cycle_def
        readCycleStart_events readCycleEnd_events pinMode_def split: option.splits)
  have A: "{pinE d, pinDB d ! 7} \<subseteq> ctl_pins d \<union> {pinDB d ! 7}" by (simp add: ctl_pins_def)
  have 1: "only_touches (ctl_pins d \<union> {pinDB d ! 7}) tr (tr @ prologue_events d (env_clock_gettime env tr))"
    using touched_prologue by simp
  have 2: "only_touches (ctl_pins d \<union> {pinDB d ! 7}) (tr @ prologue_events d (env_clock_gettime env tr)) t"
    using busy_loop_4_frame [OF loop] A by (rule only_touches_mono)
  have 3: "only_touches (ctl_pins d \<union> {pinDB d ! 7}) t tr'"
    unfolding tr' by (simp add: ctl_pins_def)
  from 1 2 3 show ?thesis by (blast intro: only_touches_trans)
next
  case False
  with r have "waitWhileBusy_ReadDisabled env d tr = Some tr'" by (simp add: waitWhileBusy_4_def)
  from waitWhileBusy_ReadDisabled_frame [OF this] show ?thesis
    by (rule only_touches_mono) simp
qed

lemma waitWhileBusy_8_frame:
  assumes r: "waitWhileBusy_8 env d tr = Some tr'"
  shows "only_touches (ctl_pins d \<union> {pinDB d ! 7}) tr tr'"
proof (cases "readEnabled d")
  case True
  with r obtain t where loop: "busy_loop_8 env (pinE d) (pinDB d ! 7) (tr @ prologue_events d (env_clock_gettime env tr)) = Some t"
    and tr': "tr' = t @ [PinModeSet (pinDB d ! 7) OUTPUT] @ cycle_close (pinE d)"
    by (auto simp add: waitWhileBusy_8_def wait_prologue_events
        readCycleStart_events readCycleEnd_events pinMode_def split: option.splits)
  have A: "{pinE d, pinDB d ! 7} \<subseteq> ctl_pins d \<union> {pinDB d ! 7}" by (simp add: ctl_pins_def)
  have 1: "only_touches (ctl_pins d \<union> {pinDB d ! 7}) tr (tr @ prologue_events d (env_clock_gettime env tr))"
    using touched_prologue by simp
  have 2: "only_touches (ctl_pins d \<union> {pinDB d ! 7}) (tr @ prologue_events d (env_clock_gettime env tr)) t"
    using busy_loop_8_frame [OF loop] A by (rule only_touches_mono)
  have 3: "only_touches (ctl_pins d \<union> {pinDB d ! 7}) t tr'"
    unfolding tr' by (simp add: ctl_pins_def)
  from 1 2 3 show ?thesis by (blast intro: only_touches_trans)
next
  case False
  with r have "waitWhileBusy_ReadDisabled env d tr = Some tr'" by (simp add: waitWhileBusy_8_def)
  from waitWhileBusy_ReadDisabled_frame [OF this] show ?thesis
    by (rule only_touches_mono) simp
qed

lemma ctl_pins_mode8 [simp]: "ctl_pins (d\<lparr>mode8 := m\<rparr>) = ctl_pins d"
  by (simp add: ctl_pins_def)

lemma bus_hi_mode8 [simp]: "bus_hi (d\<lparr>mode8 := m\<rparr>) = bus_hi d"
  by (simp add: bus_hi_def)

lemma touched_encoder_4: "touched (encoder_4_events d RS b) \<subseteq> ctl_pins d \<union> bus_hi d"
  using touched_status [of d RS False]
  by (auto simp add: encoder_4_events_def write_strobe_def touched_drive_lines ctl_pins_def bus_hi_def)

lemma touched_encoder_8: "touched (encoder_8_events d RS b) \<subseteq> ctl_pins d \<union> bus_hi d \<union> bus_lo d"
  using touched_status [of d RS False]
  by (auto simp add: encoder_8_events_def write_strobe_def touched_drive_lines ctl_pins_def bus_hi_def bus_lo_def)

lemma wait_frame_hi:
  assumes "waitWhileBusy_8 env d tr = Some tr' \<or> waitWhileBusy_4 env d tr = Some tr'"
  shows "only_touches (ctl_pins d \<union> bus_hi d) tr tr'"
proof -
  have "only_touches (ctl_pins d \<union> {pinDB d ! 7}) tr tr'"
    using assms waitWhileBusy_8_frame waitWhileBusy_4_frame by blast
  then show ?thesis by (rule only_touches_mono) (auto simp add: bus_hi_def)
qed

lemma write_4_frame:
  assumes node: "dataStruct node = Some d"
    and run: "hd44780DigitalWrite_4 env node pin data tr = Some (Inr (node', tr'))"
  shows "only_touches (ctl_pins d \<union> bus_hi d) tr tr'"
proof -
  from node run obtain tw where w: "waitWhileBusy_4 env d tr = Some tw"
    and tr': "tr' = tw @ encoder_4_events d (pin = pinBase node) (word_of_int data) @ [ClockGet]"
    by (auto simp add: write_4_unfold split: option.splits)
  have "only_touches (ctl_pins d \<union> bus_hi d) tr tw"
    by (rule wait_frame_hi [where env = env]) (simp add: w)
  moreover have "only_touches (ctl_pins d \<union> bus_hi d) tw tr'"
    unfolding tr' using touched_encoder_4 by simp
  ultimately show ?thesis by (rule only_touches_trans)
qed

lemma write_8_frame:
  assumes node: "dataStruct node = Some d"
    and run: "hd44780DigitalWrite_8 env node pin data tr = Some (Inr (node', tr'))"
  shows "only_touches (ctl_pins d \<union> bus_hi d \<union> (if mode8 d then bus_lo d else {})) tr tr'"
proof (cases "mode8 d")
  case True
  with node run obtain tw where w: "waitWhileBusy_8 env d tr = Some tw"
    and tr': "tr' = tw @ encoder_8_events d (pin = pinBase node) (word_of_int data) @ [ClockGet]"
    by (auto simp add: write_8_body split: option.splits)
  have "only_touches (ctl_pins d \<union> bus_hi d) tr tw"
    by (rule wait_frame_hi [where env = env]) (simp add: w)
  then have "only_touches (ctl_pins d \<union> bus_hi d \<union> bus_lo d) tr tw"
    by (rule only_touches_mono) auto
  moreover have "only_touches (ctl_pins d \<union> bus_hi d \<union> bus_lo d) tw tr'"
    unfolding tr' using touched_encoder_8 by simp
  ultimately show ?thesis using True by (auto intro: only_touches_trans)
next
  case False
  let ?d = "d\<lparr>mode8 := (pin \<noteq> pinBase node \<and> (word_of_int data :: 8 word) AND 0xF0 = 0x30)\<rparr>"
  from run have "hd44780DigitalWrite_4 env (node\<lparr>dataStruct := Some ?d\<rparr>) pin data tr = Some (Inr (node', tr'))"
    by (simp add: write_8_delegates [OF node False])
  from write_4_frame [OF _ this, of ?d] show ?thesis using False by simp
qed

lemma read_bits_4_trace:
  "snd (read_bits_4 env d is (data, tr)) = tr @ map (\<lambda>i. PinRead (pinDB d ! i)) is"
  by (induction "is" arbitrary: data tr) (simp_all add: read_bits_4_def digitalRead_def)

lemma read_bits_8_trace:
  "snd (read_bits_8 env d is (data, tr)) = tr @ map (\<lambda>i. PinRead (pinDB d ! i)) is"
  by (induction "is" arbitrary: data tr) (simp_all add: read_bits_8_def digitalRead_def)

lemma touched_reads: "touched (map (\<lambda>i. PinRead (pinDB d ! i)) is) = (\<lambda>i. pinDB d ! i) ` set is"
  by (induction "is") simp_all

lemma read_4_frame:
  assumes node: "dataStruct node = Some d"
    and run: "hd44780DigitalRead_4 env node pin tr = Some (Inr (v, tr'))"
  shows "only_touches (ctl_pins d \<union> bus_hi d) tr tr'"
proof -
  let ?A = "ctl_pins d \<union> bus_hi d"
  let ?t0 = "tr @ map (\<lambda>i. PinModeSet (pinDB d ! i) INPUT) [4, 5, 6, 7]"
  let ?sel = "if pin = pinBase node
              then map_option (setStatusPins d True True) (waitWhileBusy_4 env d ?t0)
              else Some (setStatusPins d False True ?t0)"
  from node run obtain ts where sel: "?sel = Some ts"
    and tr': "tr' = ts @ cycle_open (pinE d) @ map (\<lambda>i. PinRead (pinDB d ! i)) [7, 6, 5, 4]
                  @ cycle_close (pinE d) @ cycle_open (pinE d)
                  @ map (\<lambda>i. PinRead (pinDB d ! i)) [7, 6, 5, 4] @ cycle_close (pinE d)
                  @ map (\<lambda>i. PinModeSet (pinDB d ! i) OUTPUT) [4, 5, 6, 7]"
    by (auto simp add: hd44780DigitalRead_4_def bus_mode_events Let_def case_prod_beta
        readCycleStart_events readCycleEnd_events read_bits_4_trace
        split: option.splits if_splits)
  have E: "pinE d \<in> ?A" by (simp add: ctl_pins_def)
  have 0: "only_touches ?A tr ?t0" by (simp add: bus_hi_def)
  have 1: "only_touches ?A ?t0 ts"
  proof (cases "pin = pinBase node")
    case True
    with sel obtain tw where w: "waitWhileBusy_4 env d ?t0 = Some tw" and ts: "ts = tw @ status_events d True True"
      by (auto simp add: setStatusPins_events)
    have "only_touches ?A ?t0 tw" by (rule wait_frame_hi [where env = env], rule disjI2, rule w)
    moreover have "only_touches ?A tw ts" unfolding ts using touched_status [of d True True] by auto
    ultimately show ?thesis by (rule only_touches_trans)
  next
    case False
    with sel have ts: "ts = ?t0 @ status_events d False True" by (simp add: setStatusPins_events)
    show ?thesis
      by (subst ts, subst only_touches_append) (use touched_status [of d False True] in auto)
  qed
  have 2: "only_touches ?A ts tr'"
    unfolding tr' using E by (simp add: bus_hi_def)
  from 0 1 2 show ?thesis by (blast intro: only_touches_trans)
qed


lemma read_8_frame:
  assumes node: "dataStruct node = Some d"
    and run: "hd44780DigitalRead_8 env node pin tr = Some (Inr (v, tr'))"
  shows "only_touches (ctl_pins d \<union> bus_hi d \<union> (if mode8 d then bus_lo d else {})) tr tr'"
proof (cases "mode8 d")
  case False
  with node run have "hd44780DigitalRead_4 env node pin tr = Some (Inr (v, tr'))"
    by (simp add: hd44780DigitalRead_8_def)
  from read_4_frame [OF node this] show ?thesis using False by simp
next
  case True
  let ?A = "ctl_pins d \<union> bus_hi d \<union> bus_lo d"
  let ?sel = "if pin = pinBase node
              then map_option (setStatusPins d True True) (waitWhileBusy_8 env d tr)
              else Some (setStatusPins d False True tr)"
  from node run True obtain ts where sel: "?sel = Some ts"
    and tr': "tr' = ts @ map (\<lambda>i. PinModeSet (pinDB d ! i) INPUT) [0, 1, 2, 3, 4, 5, 6, 7]
                  @ cycle_open (pinE d) @ map (\<lambda>i. PinRead (pinDB d ! i)) [7, 6, 5, 4, 3, 2, 1, 0]
                  @ cycle_close (pinE d)
                  @ map (\<lambda>i. PinModeSet (pinDB d ! i) OUTPUT) [0, 1, 2, 3, 4, 5, 6, 7]"
    by (auto simp add: hd44780DigitalRead_8_def bus_mode_events Let_def case_prod_beta
        readCycleStart_events readCycleEnd_events read_bits_8_trace
        split: option.splits if_splits)
  have E: "pinE d \<in> ?A" by (simp add: ctl_pins_def)
  have 1: "only_touches ?A tr ts"
  proof (cases "pin = pinBase node")
    case True
    with sel obtain tw where w: "waitWhileBusy_8 env d tr = Some tw" and ts: "ts = tw @ status_events d True True"
      by (auto simp add: setStatusPins_events)
    have "only_touches (ctl_pins d \<union> bus_hi d) tr tw"
      by (rule wait_frame_hi [where env = env], rule disjI1, rule w)
    then have "only_touches ?A tr tw" by (rule only_touches_mono) auto
    moreover have "only_touches ?A tw ts" unfolding ts using touched_status [of d True True] by auto
    ultimately show ?thesis by (rule only_touches_trans)
  next
    case False
    with sel have "ts = tr @ status_events d False True" by (simp add: setStatusPins_events)
    then show ?thesis using touched_status [of d False True] by auto
  qed
  have 2: "only_touches ?A ts tr'"
    unfolding tr' using E by (simp add: bus_hi_def bus_lo_def)
  from 1 2 show ?thesis using True by (auto intro: only_touches_trans)
qed

lemma setupPin_events: "setupPin p tr = tr @ [PinPull p PUD_UP, PinModeSet p OUTPUT, PinWrite p LOW]"
  by (simp add: setupPin_def pullUpDnControl_def pinMode_def digitalWrite_def)

lemma touched_reports [simp]: "touched (map report xs) = {}"
  by (induction xs) (simp_all add: report_def)

lemma setup_frame:
  assumes "hd44780Setup env base rd m8 pRS pRW pE p7 p6 p5 p4 p3 p2 p1 p0 tr = Inr (ret, nd, tr')"
  shows "only_touches ({pRS, pE, p7, p6, p5, p4} \<union> (if rd then {pRW} else {})
                        \<union> (if m8 then {p3, p2, p1, p0} else {})) tr tr'"
  using assms
  by (auto simp add: hd44780Setup_def check_preconditions_report Let_def setupPin_events
      writeCycleStart_events writeCycleEnd_events digitalWrite_def delayMicroseconds_def
      split: if_splits)

lemma demo_setup_4:
  "hd44780Setup idle_env 64 rd False 0 1 2 10 9 8 7 6 5 4 3 [] =
     Inr (EXIT_SUCCESS,
          Some (demo_node (demo_data rd False False) Hd44780DigitalWrite_4
                  (if rd then Hd44780DigitalRead_4 else NoReadHandler)),
          [NewNode 64 2, Malloc,
           PinPull 0 PUD_UP, PinModeSet 0 OUTPUT, PinWrite 0 LOW]
          @ (if rd then [PinPull 1 PUD_UP, PinModeSet 1 OUTPUT, PinWrite 1 LOW] else [])
          @ [PinPull 2 PUD_UP, PinModeSet 2 OUTPUT, PinWrite 2 LOW,
             PinPull 10 PUD_UP, PinModeSet 10 OUTPUT, PinWrite 10 LOW,
             PinPull 9 PUD_UP, PinModeSet 9 OUTPUT, PinWrite 9 LOW,
             PinPull 8 PUD_UP, PinModeSet 8 OUTPUT, PinWrite 8 LOW,
             PinPull 7 PUD_UP, PinModeSet 7 OUTPUT, PinWrite 7 LOW,
             PinWrite 2 HIGH, PinWrite 8 HIGH, DelayNs 300, PinWrite 2 LOW, DelayNs 300,
             PinWrite 8 LOW, DelayUs 37])"
  by (simp add: hd44780Setup_def check_preconditions_report referenced_pins_def invalid_pin_def
      Let_def setupPin_events writeCycleStart_events writeCycleEnd_events digitalWrite_def
      delayMicroseconds_def fresh_node_def demo_node_def demo_data_def)

lemma demo_wait_ready [simp]:
  "waitWhileBusy_4 idle_env (demo_data True m8e m8) tr =
     Some (tr @ prologue_events (demo_data True m8e m8) \<lparr>tv_sec = 0, tv_nsec = 0\<rparr> @ ready_round_4 2 10)"
  "waitWhileBusy_8 idle_env (demo_data True m8e m8) tr =
     Some (tr @ prologue_events (demo_data True m8e m8) \<lparr>tv_sec = 0, tv_nsec = 0\<rparr> @ ready_round_8 2 10)"
  using waitWhileBusy_4_ready [of "demo_data True m8e m8" idle_env tr]
        waitWhileBusy_8_ready [of "demo_data True m8e m8" idle_env tr]
  by simp_all

lemma setup_4_node:
  assumes "hd44780Setup env base rd False pRS pRW pE p7 p6 p5 p4 p3 p2 p1 p0 tr0 = Inr (EXIT_SUCCESS, Some node, tr1)"
  shows "node_digitalWrite node = Hd44780DigitalWrite_4 \<and> pinBase node = base \<and>
         (\<exists>d. dataStruct node = Some d \<and> \<not> mode8 d)"
  using assms
  by (auto simp add: hd44780Setup_def Let_def fresh_node_def split: if_splits)

lemma write_4_keeps_node:
  assumes "dataStruct node = Some d"
    and "hd44780DigitalWrite_4 env node pin data tr = Some (Inr (node', tr'))"
  shows "node_digitalWrite node' = node_digitalWrite node \<and> pinBase node' = pinBase node \<and>
         (\<exists>d'. dataStruct node' = Some d' \<and> mode8 d' = mode8 d)"
  using assms by (auto simp add: write_4_unfold split: option.splits)

lemma idle_wait_4:
  "readEnabled d \<Longrightarrow> waitWhileBusy_4 idle_env d tr =
     Some (tr @ prologue_events d \<lparr>tv_sec = 0, tv_nsec = 0\<rparr> @ ready_round_4 (pinE d) (pinDB d ! 7))"
  using waitWhileBusy_4_ready [of d idle_env tr] by simp

lemma idle_write_4:
  assumes "dataStruct node = Some d" "readEnabled d"
  shows "hd44780DigitalWrite_4 idle_env node pin data tr =
     Some (Inr (node\<lparr>dataStruct := Some (d\<lparr>operation_end :=
                   timespec_add \<lparr>tv_sec = 0, tv_nsec = 0\<rparr> (busy_delay (pin = pinBase node) (word_of_int data))\<rparr>)\<rparr>,
                tr @ prologue_events d \<lparr>tv_sec = 0, tv_nsec = 0\<rparr> @ ready_round_4 (pinE d) (pinDB d ! 7)
                   @ encoder_4_events d (pin = pinBase node) (word_of_int data) @ [ClockGet]))"
  using assms by (simp add: write_4_unfold idle_wait_4)

lemma demo_pins [simp]:
  "ctl_pins (demo_data rd m8e m8) = (if rd then {0, 1, 2} else {0, 2})"
  "bus_hi (demo_data rd m8e m8) = {7, 8, 9, 10}"
  "bus_lo (demo_data rd m8e m8) = {3, 4, 5, 6}"
  by (auto simp add: ctl_pins_def bus_hi_def bus_lo_def)

lemma sleeps_simps [simp]:
  "sleeps [] = 0"
  "sleeps (a @ b) = sleeps a + sleeps b"
  "sleeps (ClockSleep t # tr) = Suc (sleeps tr)"
  "sleeps (PinWrite p v # tr) = sleeps tr"
  "sleeps (PinRead p # tr) = sleeps tr"
  "sleeps (PinModeSet p m # tr) = sleeps tr"
  "sleeps (DelayNs n # tr) = sleeps tr"
  "sleeps (ClockGet # tr) = sleeps tr"
  by (simp_all add: sleeps_def)

lemma sleeps_replicate [simp]: "sleeps (replicate n (ClockSleep t)) = n"
  by (induction n) simp_all

lemma sleeps_parts [simp]:
  "sleeps (cycle_open e) = 0" "sleeps (cycle_close e) = 0" "sleeps (full_cycle e) = 0"
  "sleeps (status_events d RS RW) = 0"
  "sleeps (busy_round_4 e db7) = 0" "sleeps (busy_round_8 e db7) = 0"
  by (simp_all add: cycle_open_def cycle_close_def full_cycle_def status_events_def
      busy_round_4_def busy_round_8_def)

lemma sleeps_prologue:
  "sleeps (prologue_events d now) = (if far_away (operation_end d) now then 1 else 0)"
  by (simp add: prologue_events_def)

lemma nanosleep_loop_rounds:
  assumes "\<forall>k<n. env_clock_nanosleep env (tr @ replicate k (ClockSleep deadline)) deadline \<noteq> 0"
    and "env_clock_nanosleep env (tr @ replicate n (ClockSleep deadline)) deadline = 0"
  shows "nanosleep_loop env deadline tr = Some (tr @ replicate (Suc n) (ClockSleep deadline))"
  using assms
proof (induction n arbitrary: tr)
  case 0
  then show ?case by (subst nanosleep_loop.simps) (simp add: clock_nanosleep_def)
next
  case (Suc n)
  from Suc.prems(1) have first: "env_clock_nanosleep env tr deadline \<noteq> 0" by fastforce
  have step: "nanosleep_loop env deadline tr = nanosleep_loop env deadline (tr @ [ClockSleep deadline])"
    by (subst nanosleep_loop.simps) (simp add: first clock_nanosleep_def)
  have "nanosleep_loop env deadline (tr @ [ClockSleep deadline]) =
          Some ((tr @ [ClockSleep deadline]) @ replicate (Suc n) (ClockSleep deadline))"
  proof (rule Suc.IH)
    show "\<forall>k<n. env_clock_nanosleep env ((tr @ [ClockSleep deadline]) @ replicate k (ClockSleep deadline)) deadline \<noteq> 0"
      using Suc.prems(1) by (metis Suc_less_eq append.assoc append_Cons append_Nil replicate_Suc)
    show "env_clock_nanosleep env ((tr @ [ClockSleep deadline]) @ replicate n (ClockSleep deadline)) deadline = 0"
      using Suc.prems(2) by simp
  qed
  with step show ?case by simp
qed

lemma nanosleep_loop_returns:
  assumes "nanosleep_loop env deadline tr = Some tr'"
  shows "\<exists>n. tr' = tr @ replicate (Suc n) (ClockSleep deadline) \<and>
             (\<forall>k<n. env_clock_nanosleep env (tr @ replicate k (ClockSleep deadline)) deadline \<noteq> 0) \<and>
             env_clock_nanosleep env (tr @ replicate n (ClockSleep deadline)) deadline = 0"
proof (rule nanosleep_loop.raw_induct
    [where P = "\<lambda>env deadline tr tr'.
       \<exists>n. tr' = tr @ replicate (Suc n) (ClockSleep deadline) \<and>
           (\<forall>k<n. env_clock_nanosleep env (tr @ replicate k (ClockSleep deadline)) deadline \<noteq> 0) \<and>
           env_clock_nanosleep env (tr @ replicate n (ClockSleep deadline)) deadline = 0", OF _ assms])
  fix loop :: "env \<Rightarrow> timespec \<Rightarrow> trace \<Rightarrow> trace option" and env deadline tr tr'
  assume IH: "\<And>env deadline tr tr'. loop env deadline tr = Some tr' \<Longrightarrow>
       \<exists>n. tr' = tr @ replicate (Suc n) (ClockSleep deadline) \<and>
           (\<forall>k<n. env_clock_nanosleep env (tr @ replicate k (ClockSleep deadline)) deadline \<noteq> 0) \<and>
           env_clock_nanosleep env (tr @ replicate n (ClockSleep deadline)) deadline = 0"
    and body: "(if fst (clock_nanosleep env deadline tr) \<noteq> 0
                then loop env deadline (snd (clock_nanosleep env deadline tr))
                else Some (snd (clock_nanosleep env deadline tr))) = Some tr'"
  show "\<exists>n. tr' = tr @ replicate (Suc n) (ClockSleep deadline) \<and>
           (\<forall>k<n. env_clock_nanosleep env (tr @ replicate k (ClockSleep deadline)) deadline \<noteq> 0) \<and>
           env_clock_nanosleep env (tr @ replicate n (ClockSleep deadline)) deadline = 0"
  proof (cases "env_clock_nanosleep env tr deadline \<noteq> 0")
    case True
    with body have "loop env deadline (tr @ [ClockSleep deadline]) = Some tr'"
      by (simp add: clock_nanosleep_def)
    from IH [OF this] obtain n where
      n: "tr' = (tr @ [ClockSleep deadline]) @ replicate (Suc n) (ClockSleep deadline)"
         "\<forall>k<n. env_clock_nanosleep env ((tr @ [ClockSleep deadline]) @ replicate k (ClockSleep deadline)) deadline \<noteq> 0"
         "env_clock_nanosleep env ((tr @ [ClockSleep deadline]) @ replicate n (ClockSleep deadline)) deadline = 0"
      by blast
    have "\<forall>k<Suc n. env_clock_nanosleep env (tr @ replicate k (ClockSleep deadline)) deadline \<noteq> 0"
    proof (intro allI impI)
      fix k assume "k < Suc n"
      show "env_clock_nanosleep env (tr @ replicate k (ClockSleep deadline)) deadline \<noteq> 0"
      proof (cases k)
        case 0
        with True show ?thesis by simp
      next
        case (Suc j)
        with \<open>k < Suc n\<close> n(2) show ?thesis by simp
      qed
    qed
    with n(1) n(3) show ?thesis
      by (intro exI [of _ "Suc n"]) simp
  next
    case False
    with body show ?thesis
      by (intro exI [of _ 0]) (auto simp add: clock_nanosleep_def)
  qed
qed

lemma busy_loop_8_sleeps:
  assumes "busy_loop_8 env e db7 tr = Some tr'"
  shows "sleeps tr' = sleeps tr"
proof (rule busy_loop_8.raw_induct [where P = "\<lambda>env e db7 tr tr'. sleeps tr' = sleeps tr", OF _ assms])
  fix loop :: "env \<Rightarrow> int \<Rightarrow> int \<Rightarrow> trace \<Rightarrow> trace option" and env e db7 tr tr'
  assume IH: "\<And>env e db7 tr tr'. loop env e db7 tr = Some tr' \<Longrightarrow> sleeps tr' = sleeps tr"
    and body: "(if fst (digitalRead env db7 tr) \<noteq> LOW
                then loop env e db7
                       (readCycleStart e (readCycleEnd e (snd (digitalRead env db7 tr))))
                else Some (snd (digitalRead env db7 tr))) = Some tr'"
  show "sleeps tr' = sleeps tr"
  proof (cases "fst (digitalRead env db7 tr) \<noteq> 0")
    case True
    with body have "loop env e db7 (tr @ busy_round_8 e db7) = Some tr'"
      by (simp add: digitalRead_def busy_round_8_def readCycleStart_events readCycleEnd_events)
    from IH [OF this] show ?thesis by simp
  next
    case False
    with body show ?thesis by (auto simp add: digitalRead_def)
  qed
qed

lemma busy_loop_4_sleeps:
  assumes "busy_loop_4 env e db7 tr = Some tr'"
  shows "sleeps tr' = sleeps tr"
proof (rule busy_loop_4.raw_induct [where P = "\<lambda>env e db7 tr tr'. sleeps tr' = sleeps tr", OF _ assms])
  fix loop :: "env \<Rightarrow> int \<Rightarrow> int \<Rightarrow> trace \<Rightarrow> trace option" and env e db7 tr tr'
  assume IH: "\<And>env e db7 tr tr'. loop env e db7 tr = Some tr' \<Longrightarrow> sleeps tr' = sleeps tr"
    and body: "(if fst (digitalRead env db7 tr) \<noteq> LOW
                then loop env e db7
                       (readCycleStart e (readCycleEnd e (readCycleStart e (readCycleEnd e (snd (digitalRead env db7 tr))))))
                else Some (snd (digitalRead env db7 tr))) = Some tr'"
  show "sleeps tr' = sleeps tr"
  proof (cases "fst (digitalRead env db7 tr) \<noteq> 0")
    case True
    with body have "loop env e db7 (tr @ busy_round_4 e db7) = Some tr'"
      by (simp add: digitalRead_def busy_round_4_def full_cycle_def readCycleStart_events readCycleEnd_events)
    from IH [OF this] show ?thesis by simp
  next
    case False
    with body show ?thesis by (auto simp add: digitalRead_def)
  qed
qed

lemma read_capable_wait_sleeps:
  assumes "readEnabled d"
    and "waitWhileBusy_8 env d tr = Some tr' \<or> waitWhileBusy_4 env d tr = Some tr'"
  shows "sleeps tr' = sleeps tr + (if far_away (operation_end d) (env_clock_gettime env tr) then 1 else 0)"
proof -
  let ?p = "tr @ prologue_events d (env_clock_gettime env tr)"
  from assms consider
    t where "busy_loop_8 env (pinE d) (pinDB d ! 7) ?p = Some t"
      "tr' = t @ [PinModeSet (pinDB d ! 7) OUTPUT] @ cycle_close (pinE d)"
  | t where "busy_loop_4 env (pinE d) (pinDB d ! 7) ?p = Some t"
      "tr' = t @ [PinModeSet (pinDB d ! 7) OUTPUT] @ cycle_close (pinE d) @ full_cycle (pinE d)"
    by (auto simp add: waitWhileBusy_8_def waitWhileBusy_4_def wait_prologue_events full_cycle_def
        readCycleStart_events readCycleEnd_events pinMode_def split: option.splits)
  then show ?thesis
  proof cases
    case 1
    from busy_loop_8_sleeps [OF 1(1)] 1(2) show ?thesis by (simp add: sleeps_prologue)
  next
    case 2
    from busy_loop_4_sleeps [OF 2(1)] 2(2) show ?thesis by (simp add: sleeps_prologue)
  qed
qed

lemma interrupted_env_sel [simp]:
  "env_digitalRead interrupted_env tr pin = LOW"
  "env_clock_gettime interrupted_env tr = \<lparr>tv_sec = 0, tv_nsec = 0\<rparr>"
  "env_clock_nanosleep interrupted_env tr t = 4"
  by (simp_all add: interrupted_env_def idle_env_def)

lemma restless_env_sel [simp]:
  "env_clock_gettime (restless_env n) tr = \<lparr>tv_sec = 0, tv_nsec = 0\<rparr>"
  "env_clock_nanosleep (restless_env n) tr t = (if sleeps tr < n then 4 else 0)"
  by (simp_all add: restless_env_def idle_env_def)

lemma driven_bit: "(uint (drop_bit i (b :: 8 word) AND 1) \<noteq> 0) = bit b i"
  by (simp add: and_one_eq bit_iff_odd_drop_bit uint_0_iff even_iff_mod_2_eq_zero)

lemma bit_shift_in:
  "bit (shift_in x (of_bool c)) n = (if n = 0 then c else n < 8 \<and> bit x (n - 1))"
proof -
  have "bit (2 * x) n = (n < 8 \<and> n \<noteq> 0 \<and> bit x (n - 1))"
    by (simp add: bit_double_iff)
  then show ?thesis
    by (auto simp add: shift_in_def bit_or_iff bit_of_bool_iff mult.commute)
qed

lemma byte_of_bits:
  fixes b :: "8 word"
  shows "shift_in (shift_in (shift_in (shift_in (shift_in (shift_in (shift_in (shift_in 0
           (of_bool (bit b 7))) (of_bool (bit b 6))) (of_bool (bit b 5))) (of_bool (bit b 4)))
           (of_bool (bit b 3))) (of_bool (bit b 2))) (of_bool (bit b 1))) (of_bool (bit b 0)) = b"
  (is "?w = b")
proof (rule bit_word_eqI)
  fix n assume "n < LENGTH(8)"
  then have "n \<in> {0, 1, 2, 3, 4, 5, 6, 7}" by auto
  then show "bit ?w n = bit b n"
    by (elim insertE emptyE) (simp_all only: bit_shift_in, simp_all)
qed

lemma byte_line_7_own:
  fixes b :: "8 word"
  shows "shift_in (shift_in (shift_in (shift_in (shift_in (shift_in (shift_in (shift_in 0
           (of_bool (bit b 3))) (of_bool (bit b 6))) (of_bool (bit b 5))) (of_bool (bit b 4)))
           (of_bool (bit b 3))) (of_bool (bit b 2))) (of_bool (bit b 1))) (of_bool (bit b 0)) =
         (b AND 0x7F) OR (if bit b 3 then 0x80 else 0)"
  (is "?w = ?v")
proof (rule bit_word_eqI)
  fix n assume "n < LENGTH(8)"
  then have "n \<in> {0, 1, 2, 3, 4, 5, 6, 7}" by auto
  then show "bit ?w n = bit ?v n"
    by (elim insertE emptyE) (simp_all only: bit_shift_in, simp_all add: bit_or_iff bit_and_iff)
qed

lemma lcd_run_append: "lcd_run d (tr @ evs) = foldl (lcd_step d) (lcd_run d tr) evs"
  by (simp add: lcd_run_def)

lemma lcd_status:
  assumes "distinct [pinRS d, pinRW d, pinE d, pinDB d ! 4, pinDB d ! 5, pinDB d ! 6, pinDB d ! 7]"
    and "readEnabled d"
  shows "foldl (lcd_step d) s (status_events d RS RW) = s\<lparr>lcd_rs := RS, lcd_rw := RW\<rparr>"
  using assms by (auto simp add: status_events_def)

lemma lcd_open:
  "foldl (lcd_step d) s (cycle_open (pinE d)) = s\<lparr>lcd_e := True\<rparr>"
  by (simp add: cycle_open_def)

lemma lcd_close:
  "foldl (lcd_step d) s (cycle_close (pinE d)) = (if lcd_e s then strobe_fall s else s)\<lparr>lcd_e := False\<rparr>"
  by (simp add: cycle_close_def)

lemma lcd_reads [simp]:
  "foldl (lcd_step d) s (map (\<lambda>i. PinRead (pinDB d ! i)) is) = s"
  by (induction "is") simp_all

lemma data_line_simps:
  assumes "distinct [pinRS d, pinRW d, pinE d, pinDB d ! 4, pinDB d ! 5, pinDB d ! 6, pinDB d ! 7]"
  shows "data_line d (pinDB d ! 7) = Some 7" "data_line d (pinDB d ! 6) = Some 6"
    "data_line d (pinDB d ! 5) = Some 5" "data_line d (pinDB d ! 4) = Some 4"
  using assms by (auto simp add: data_line_def)

lemma lcd_step_mode:
  assumes "distinct [pinRS d, pinRW d, pinE d, pinDB d ! 4, pinDB d ! 5, pinDB d ! 6, pinDB d ! 7]"
  shows "lcd_step d s (PinModeSet (pinDB d ! 4) m) = s\<lparr>lcd_dir := (lcd_dir s)(4 := m)\<rparr>"
    "lcd_step d s (PinModeSet (pinDB d ! 5) m) = s\<lparr>lcd_dir := (lcd_dir s)(5 := m)\<rparr>"
    "lcd_step d s (PinModeSet (pinDB d ! 6) m) = s\<lparr>lcd_dir := (lcd_dir s)(6 := m)\<rparr>"
    "lcd_step d s (PinModeSet (pinDB d ! 7) m) = s\<lparr>lcd_dir := (lcd_dir s)(7 := m)\<rparr>"
  by (simp_all add: data_line_simps [OF assms])

lemma lcd_modes:
  assumes "distinct [pinRS d, pinRW d, pinE d, pinDB d ! 4, pinDB d ! 5, pinDB d ! 6, pinDB d ! 7]"
  shows "foldl (lcd_step d) s (map (\<lambda>i. PinModeSet (pinDB d ! i) m) [4, 5, 6, 7]) =
           s\<lparr>lcd_dir := (lcd_dir s)(4 := m, 5 := m, 6 := m, 7 := m)\<rparr>"
  by (simp add: lcd_step_mode [OF assms] del: lcd_step.simps)

lemma lcd_prologue:
  assumes "distinct [pinRS d, pinRW d, pinE d, pinDB d ! 4, pinDB d ! 5, pinDB d ! 6, pinDB d ! 7]"
    and "readEnabled d"
  shows "foldl (lcd_step d) s (prologue_events d now) =
           s\<lparr>lcd_rs := False, lcd_rw := True, lcd_e := True, lcd_dir := (lcd_dir s)(7 := INPUT)\<rparr>"
  using assms by (simp add: prologue_events_def lcd_status lcd_open data_line_simps)

lemma lcd_step_data:
  assumes "distinct [pinRS d, pinRW d, pinE d, pinDB d ! 4, pinDB d ! 5, pinDB d ! 6, pinDB d ! 7]"
  shows "lcd_step d s (PinWrite (pinDB d ! 4) v) = s\<lparr>lcd_drv := (lcd_drv s)(4 := (v \<noteq> 0))\<rparr>"
    "lcd_step d s (PinWrite (pinDB d ! 5) v) = s\<lparr>lcd_drv := (lcd_drv s)(5 := (v \<noteq> 0))\<rparr>"
    "lcd_step d s (PinWrite (pinDB d ! 6) v) = s\<lparr>lcd_drv := (lcd_drv s)(6 := (v \<noteq> 0))\<rparr>"
    "lcd_step d s (PinWrite (pinDB d ! 7) v) = s\<lparr>lcd_drv := (lcd_drv s)(7 := (v \<noteq> 0))\<rparr>"
proof -
  from assms have ne: "pinDB d ! 4 \<noteq> pinE d" "pinDB d ! 5 \<noteq> pinE d" "pinDB d ! 6 \<noteq> pinE d" "pinDB d ! 7 \<noteq> pinE d"
    "pinDB d ! 4 \<noteq> pinRS d" "pinDB d ! 5 \<noteq> pinRS d" "pinDB d ! 6 \<noteq> pinRS d" "pinDB d ! 7 \<noteq> pinRS d"
    "pinDB d ! 4 \<noteq> pinRW d" "pinDB d ! 5 \<noteq> pinRW d" "pinDB d ! 6 \<noteq> pinRW d" "pinDB d ! 7 \<noteq> pinRW d"
    by auto
  show "lcd_step d s (PinWrite (pinDB d ! 4) v) = s\<lparr>lcd_drv := (lcd_drv s)(4 := (v \<noteq> 0))\<rparr>"
    "lcd_step d s (PinWrite (pinDB d ! 5) v) = s\<lparr>lcd_drv := (lcd_drv s)(5 := (v \<noteq> 0))\<rparr>"
    "lcd_step d s (PinWrite (pinDB d ! 6) v) = s\<lparr>lcd_drv := (lcd_drv s)(6 := (v \<noteq> 0))\<rparr>"
    "lcd_step d s (PinWrite (pinDB d ! 7) v) = s\<lparr>lcd_drv := (lcd_drv s)(7 := (v \<noteq> 0))\<rparr>"
    by (simp_all add: ne data_line_simps [OF assms])
qed

lemma lcd_drive:
  assumes "distinct [pinRS d, pinRW d, pinE d, pinDB d ! 4, pinDB d ! 5, pinDB d ! 6, pinDB d ! 7]"
  shows "foldl (lcd_step d) s (drive_lines d b [4, 5, 6, 7] sh) =
           s\<lparr>lcd_drv := (lcd_drv s)(4 := bit b (4 - sh), 5 := bit b (5 - sh), 6 := bit b (6 - sh), 7 := bit b (7 - sh))\<rparr>"
  by (simp add: drive_lines_def lcd_step_data [OF assms] driven_bit del: lcd_step.simps)

lemma lcd_write_strobe:
  assumes "distinct [pinRS d, pinRW d, pinE d, pinDB d ! 4, pinDB d ! 5, pinDB d ! 6, pinDB d ! 7]"
  shows "foldl (lcd_step d) s (write_strobe (pinE d) (drive_lines d b [4, 5, 6, 7] sh)) =
           (strobe_fall (s\<lparr>lcd_e := True,
               lcd_drv := (lcd_drv s)(4 := bit b (4 - sh), 5 := bit b (5 - sh), 6 := bit b (6 - sh), 7 := bit b (7 - sh))\<rparr>))
             \<lparr>lcd_e := False\<rparr>"
  by (simp add: write_strobe_def lcd_drive [OF assms])

lemma lcd_env_sel [simp]:
  "env_digitalRead (lcd_env d clk slp) tr p = lcd_level d (lcd_run d tr) p"
  "env_clock_gettime (lcd_env d clk slp) tr = clk tr"
  "env_clock_nanosleep (lcd_env d clk slp) tr t = slp tr t"
  "env_wiringPiFindNode (lcd_env d clk slp) p = False"
  "env_wiringPiNewNode (lcd_env d clk slp) tr base n = True"
  "env_malloc (lcd_env d clk slp) tr = True"
  by (simp_all add: lcd_env_def)

lemma lcd_level_line:
  assumes "distinct [pinRS d, pinRW d, pinE d, pinDB d ! 4, pinDB d ! 5, pinDB d ! 6, pinDB d ! 7]"
  shows "lcd_level d s (pinDB d ! 7) = of_bool (line_level s 7)"
    "lcd_level d s (pinDB d ! 6) = of_bool (line_level s 6)"
    "lcd_level d s (pinDB d ! 5) = of_bool (line_level s 5)"
    "lcd_level d s (pinDB d ! 4) = of_bool (line_level s 4)"
  by (simp_all add: lcd_level_def data_line_simps [OF assms])

text \<open>The wait on the simulated controller: the poll samples line 7 as an input and finds
  the busy flag clear; when the wait returns, line 7 is an output again.\<close>

lemma lcd_wait:
  assumes pins: "distinct [pinRS d, pinRW d, pinE d, pinDB d ! 4, pinDB d ! 5, pinDB d ! 6, pinDB d ! 7]"
    and rd: "readEnabled d"
    and narrow: "\<not> lcd_wide (lcd_run d tr)"
    and aligned: "\<not> lcd_phase (lcd_run d tr)"
  shows "waitWhileBusy_4 (lcd_env d clk slp) d tr =
           Some (tr @ prologue_events d (clk tr) @ ready_round_4 (pinE d) (pinDB d ! 7))"
    and "lcd_run d (tr @ prologue_events d (clk tr) @ ready_round_4 (pinE d) (pinDB d ! 7)) =
           (lcd_run d tr)\<lparr>lcd_rs := False, lcd_rw := True, lcd_e := False,
                           lcd_dir := (lcd_dir (lcd_run d tr))(7 := OUTPUT), lcd_phase := False\<rparr>"
proof -
  have after: "lcd_run d (tr @ prologue_events d (clk tr)) =
                 (lcd_run d tr)\<lparr>lcd_rs := False, lcd_rw := True, lcd_e := True,
                                 lcd_dir := (lcd_dir (lcd_run d tr))(7 := INPUT)\<rparr>"
    by (simp add: lcd_run_append lcd_prologue [OF pins rd])
  have "env_digitalRead (lcd_env d clk slp) (tr @ prologue_events d (env_clock_gettime (lcd_env d clk slp) tr)) (pinDB d ! 7) = LOW"
    using aligned by (simp add: after lcd_level_line [OF pins] line_level_def lcd_out_def)
  from waitWhileBusy_4_ready [OF rd this]
  show "waitWhileBusy_4 (lcd_env d clk slp) d tr =
           Some (tr @ prologue_events d (clk tr) @ ready_round_4 (pinE d) (pinDB d ! 7))"
    by simp
  have "lcd_run d ((tr @ prologue_events d (clk tr)) @ ready_round_4 (pinE d) (pinDB d ! 7)) =
           (lcd_run d tr)\<lparr>lcd_rs := False, lcd_rw := True, lcd_e := False,
                           lcd_dir := (lcd_dir (lcd_run d tr))(7 := OUTPUT), lcd_phase := False\<rparr>"
    unfolding lcd_run_append [of d "tr @ prologue_events d (clk tr)"] after
    using aligned narrow
    by (simp add: ready_round_4_def full_cycle_def lcd_open lcd_close strobe_fall_def
        data_line_simps [OF pins])
  then show "lcd_run d (tr @ prologue_events d (clk tr) @ ready_round_4 (pinE d) (pinDB d ! 7)) =
           (lcd_run d tr)\<lparr>lcd_rs := False, lcd_rw := True, lcd_e := False,
                           lcd_dir := (lcd_dir (lcd_run d tr))(7 := OUTPUT), lcd_phase := False\<rparr>"
    by simp
qed

text \<open>The 4-bit encoder writing to the memory of the simulated controller: the byte ends
  up in the memory register, the nibble phase is back at the start, and the host's latch
  of line 7 holds what the second nibble put there, bit 3 of the byte.\<close>

lemma lcd_encoder:
  assumes pins: "distinct [pinRS d, pinRW d, pinE d, pinDB d ! 4, pinDB d ! 5, pinDB d ! 6, pinDB d ! 7]"
    and rd: "readEnabled d"
    and st: "\<not> lcd_phase s" "\<not> lcd_wide s"
    and out: "lcd_dir s 4 = OUTPUT" "lcd_dir s 5 = OUTPUT" "lcd_dir s 6 = OUTPUT" "lcd_dir s 7 = OUTPUT"
  shows "\<not> lcd_phase (foldl (lcd_step d) s (encoder_4_events d True b))"
    and "\<not> lcd_wide (foldl (lcd_step d) s (encoder_4_events d True b))"
    and "lcd_drv (foldl (lcd_step d) s (encoder_4_events d True b)) 7 = bit b 3"
    and "lcd_reg (foldl (lcd_step d) s (encoder_4_events d True b)) True 7 = bit b 7"
    and "lcd_reg (foldl (lcd_step d) s (encoder_4_events d True b)) True 6 = bit b 6"
    and "lcd_reg (foldl (lcd_step d) s (encoder_4_events d True b)) True 5 = bit b 5"
    and "lcd_reg (foldl (lcd_step d) s (encoder_4_events d True b)) True 4 = bit b 4"
    and "lcd_reg (foldl (lcd_step d) s (encoder_4_events d True b)) True 3 = bit b 3"
    and "lcd_reg (foldl (lcd_step d) s (encoder_4_events d True b)) True 2 = bit b 2"
    and "lcd_reg (foldl (lcd_step d) s (encoder_4_events d True b)) True 1 = bit b 1"
    and "lcd_reg (foldl (lcd_step d) s (encoder_4_events d True b)) True 0 = bit b 0"
  using st out
  by (simp_all add: encoder_4_events_def lcd_status [OF pins rd] lcd_write_strobe [OF pins]
      strobe_fall_def line_level_def)

lemma lcd_read_bits:
  assumes pins: "distinct [pinRS d, pinRW d, pinE d, pinDB d ! 4, pinDB d ! 5, pinDB d ! 6, pinDB d ! 7]"
  shows "read_bits_4 (lcd_env d clk slp) d [7, 6, 5, 4] (data, t) =
     (shift_in (shift_in (shift_in (shift_in data
          (of_bool (line_level (lcd_run d t) 7)))
          (of_bool (line_level (lcd_run d t) 6)))
          (of_bool (line_level (lcd_run d t) 5)))
          (of_bool (line_level (lcd_run d t) 4)),
      t @ map (\<lambda>i. PinRead (pinDB d ! i)) [7, 6, 5, 4])"
  by (simp add: read_bits_4_def digitalRead_def lcd_run_append lcd_level_line [OF pins] split del: if_split)

text \<open>The two sampling cycles of the 4-bit read of the memory on the simulated controller,
  from a trace \<open>ts\<close> at which the memory is selected for reading, the nibble phase is at
  the start, lines 4 to 6 are inputs and line 7 is an output: both samples of line 7
  return the host's own latch.\<close>

lemma lcd_sample:
  fixes b :: "8 word"
  assumes pins: "distinct [pinRS d, pinRW d, pinE d, pinDB d ! 4, pinDB d ! 5, pinDB d ! 6, pinDB d ! 7]"
    and sel: "lcd_rw (lcd_run d ts)" "lcd_rs (lcd_run d ts)" "\<not> lcd_phase (lcd_run d ts)"
      "\<not> lcd_wide (lcd_run d ts)"
    and dir: "lcd_dir (lcd_run d ts) 7 = OUTPUT" "lcd_dir (lcd_run d ts) 6 = INPUT"
      "lcd_dir (lcd_run d ts) 5 = INPUT" "lcd_dir (lcd_run d ts) 4 = INPUT"
    and latch: "lcd_drv (lcd_run d ts) 7 = bit b 3"
    and bits: "lcd_reg (lcd_run d ts) True 6 = bit b 6"
      "lcd_reg (lcd_run d ts) True 5 = bit b 5" "lcd_reg (lcd_run d ts) True 4 = bit b 4"
      "lcd_reg (lcd_run d ts) True 2 = bit b 2"
      "lcd_reg (lcd_run d ts) True 1 = bit b 1" "lcd_reg (lcd_run d ts) True 0 = bit b 0"
  shows "fst (read_bits_4 (lcd_env d clk slp) d [7, 6, 5, 4]
           (fst (read_bits_4 (lcd_env d clk slp) d [7, 6, 5, 4] (0, ts @ cycle_open (pinE d))),
            snd (read_bits_4 (lcd_env d clk slp) d [7, 6, 5, 4] (0, ts @ cycle_open (pinE d)))
              @ cycle_close (pinE d) @ cycle_open (pinE d))) =
         (b AND 0x7F) OR (if bit b 3 then 0x80 else 0)"
proof -
  let ?t1 = "ts @ cycle_open (pinE d)"
  have s1: "lcd_run d ?t1 = (lcd_run d ts)\<lparr>lcd_e := True\<rparr>"
    by (simp add: lcd_run_append lcd_open)
  have r1: "read_bits_4 (lcd_env d clk slp) d [7, 6, 5, 4] (0, ?t1) =
     (shift_in (shift_in (shift_in (shift_in 0
          (of_bool (bit b 3))) (of_bool (bit b 6))) (of_bool (bit b 5))) (of_bool (bit b 4)),
      ?t1 @ map (\<lambda>i. PinRead (pinDB d ! i)) [7, 6, 5, 4])"
    using sel dir latch bits
    by (subst lcd_read_bits [OF pins]) (simp add: s1 line_level_def lcd_out_def)
  let ?t2 = "(?t1 @ map (\<lambda>i. PinRead (pinDB d ! i)) [7, 6, 5, 4]) @ cycle_close (pinE d) @ cycle_open (pinE d)"
  have s2: "lcd_run d ?t2 = (lcd_run d ts)\<lparr>lcd_e := True, lcd_phase := True\<rparr>"
    unfolding lcd_run_append [of d "?t1 @ map (\<lambda>i. PinRead (pinDB d ! i)) [7, 6, 5, 4]"]
      lcd_run_append [of d ?t1] s1
    using sel by (simp add: lcd_open lcd_close strobe_fall_def)
  have r2: "fst (read_bits_4 (lcd_env d clk slp) d [7, 6, 5, 4] (x, ?t2)) =
     shift_in (shift_in (shift_in (shift_in x
          (of_bool (bit b 3))) (of_bool (bit b 2))) (of_bool (bit b 1))) (of_bool (bit b 0))" for x
    using sel dir latch bits
    by (subst lcd_read_bits [OF pins]) (simp add: s2 [simplified] line_level_def lcd_out_def)
  show ?thesis
    unfolding r1 fst_conv snd_conv r2 by (rule byte_line_7_own)
qed

text \<open>The same two cycles from a trace at which all four lines are inputs return the byte
  the memory register holds: the device gives back what it latched.\<close>

lemma lcd_sample_inputs:
  fixes b :: "8 word"
  assumes pins: "distinct [pinRS d, pinRW d, pinE d, pinDB d ! 4, pinDB d ! 5, pinDB d ! 6, pinDB d ! 7]"
    and sel: "lcd_rw (lcd_run d ts)" "lcd_rs (lcd_run d ts)" "\<not> lcd_phase (lcd_run d ts)"
      "\<not> lcd_wide (lcd_run d ts)"
    and dir: "lcd_dir (lcd_run d ts) 7 = INPUT" "lcd_dir (lcd_run d ts) 6 = INPUT"
      "lcd_dir (lcd_run d ts) 5 = INPUT" "lcd_dir (lcd_run d ts) 4 = INPUT"
    and bits: "lcd_reg (lcd_run d ts) True 7 = bit b 7" "lcd_reg (lcd_run d ts) True 6 = bit b 6"
      "lcd_reg (lcd_run d ts) True 5 = bit b 5" "lcd_reg (lcd_run d ts) True 4 = bit b 4"
      "lcd_reg (lcd_run d ts) True 3 = bit b 3" "lcd_reg (lcd_run d ts) True 2 = bit b 2"
      "lcd_reg (lcd_run d ts) True 1 = bit b 1" "lcd_reg (lcd_run d ts) True 0 = bit b 0"
  shows "fst (read_bits_4 (lcd_env d clk slp) d [7, 6, 5, 4]
           (fst (read_bits_4 (lcd_env d clk slp) d [7, 6, 5, 4] (0, ts @ cycle_open (pinE d))),
            snd (read_bits_4 (lcd_env d clk slp) d [7, 6, 5, 4] (0, ts @ cycle_open (pinE d)))
              @ cycle_close (pinE d) @ cycle_open (pinE d))) = b"
proof -
  let ?t1 = "ts @ cycle_open (pinE d)"
  have s1: "lcd_run d ?t1 = (lcd_run d ts)\<lparr>lcd_e := True\<rparr>"
    by (simp add: lcd_run_append lcd_open)
  have r1: "read_bits_4 (lcd_env d clk slp) d [7, 6, 5, 4] (0, ?t1) =
     (shift_in (shift_in (shift_in (shift_in 0
          (of_bool (bit b 7))) (of_bool (bit b 6))) (of_bool (bit b 5))) (of_bool (bit b 4)),
      ?t1 @ map (\<lambda>i. PinRead (pinDB d ! i)) [7, 6, 5, 4])"
    using sel dir bits
    by (subst lcd_read_bits [OF pins]) (simp add: s1 line_level_def lcd_out_def)
  let ?t2 = "(?t1 @ map (\<lambda>i. PinRead (pinDB d ! i)) [7, 6, 5, 4]) @ cycle_close (pinE d) @ cycle_open (pinE d)"
  have s2: "lcd_run d ?t2 = (lcd_run d ts)\<lparr>lcd_e := True, lcd_phase := True\<rparr>"
    unfolding lcd_run_append [of d "?t1 @ map (\<lambda>i. PinRead (pinDB d ! i)) [7, 6, 5, 4]"]
      lcd_run_append [of d ?t1] s1
    using sel by (simp add: lcd_open lcd_close strobe_fall_def)
  have r2: "fst (read_bits_4 (lcd_env d clk slp) d [7, 6, 5, 4] (x, ?t2)) =
     shift_in (shift_in (shift_in (shift_in x
          (of_bool (bit b 3))) (of_bool (bit b 2))) (of_bool (bit b 1))) (of_bool (bit b 0))" for x
    using sel dir bits
    by (subst lcd_read_bits [OF pins]) (simp add: s2 [simplified] line_level_def lcd_out_def)
  show ?thesis
    unfolding r1 fst_conv snd_conv r2 by (rule byte_of_bits)
qed

lemma data_line_operation_end [simp]: "data_line (d\<lparr>operation_end := x\<rparr>) p = data_line d p"
  by (simp add: data_line_def)

lemma lcd_step_operation_end [simp]: "lcd_step (d\<lparr>operation_end := x\<rparr>) = lcd_step d"
proof (intro ext)
  fix s e show "lcd_step (d\<lparr>operation_end := x\<rparr>) s e = lcd_step d s e"
    by (cases e) simp_all
qed

lemma lcd_env_operation_end [simp]: "lcd_env (d\<lparr>operation_end := x\<rparr>) clk slp = lcd_env d clk slp"
  by (simp add: lcd_env_def lcd_run_def lcd_level_def)

lemma lcd_run_operation_end [simp]: "lcd_run (d\<lparr>operation_end := x\<rparr>) = lcd_run d"
  by (intro ext) (simp add: lcd_run_def)

lemma line_7_own_differs:
  fixes b :: "8 word"
  shows "(uint ((b AND 0x7F) OR (if bit b 3 then 0x80 else 0)) = uint b) = (bit b 7 = bit b 3)"
proof -
  let ?v = "(b AND 0x7F) OR (if bit b 3 then 0x80 else 0)"
  have bits: "bit ?v n = (if n = 7 then bit b 3 else bit b n)" if "n < 8" for n
  proof -
    from that have "n \<in> {0, 1, 2, 3, 4, 5, 6, 7}" by auto
    then show ?thesis
      by (elim insertE emptyE) (simp_all add: bit_or_iff bit_and_iff)
  qed
  have "(?v = b) = (bit b 7 = bit b 3)"
  proof
    assume "?v = b"
    then have "bit ?v 7 = bit b 7" by simp
    then show "bit b 7 = bit b 3" by (simp only: bits [of 7]) simp
  next
    assume e: "bit b 7 = bit b 3"
    show "?v = b"
    proof (rule bit_word_eqI)
      fix n assume "n < LENGTH(8)"
      then have "n < 8" by simp
      then show "bit ?v n = bit b n" using e by (simp only: bits) simp
    qed
  qed
  then show ?thesis by (simp only: word_uint_eq_iff [symmetric])
qed

lemma read_4_unfold:
  assumes node: "dataStruct node = Some d"
    and rd: "readEnabled d"
  shows "hd44780DigitalRead_4 env node pin t =
    (case (if pin = pinBase node
           then map_option (\<lambda>tw. tw @ status_events d True True)
                  (waitWhileBusy_4 env d (t @ map (\<lambda>i. PinModeSet (pinDB d ! i) INPUT) [4, 5, 6, 7]))
           else Some ((t @ map (\<lambda>i. PinModeSet (pinDB d ! i) INPUT) [4, 5, 6, 7]) @ status_events d False True)) of
       None \<Rightarrow> None
     | Some ts \<Rightarrow>
         Some (Inr (uint (fst (read_bits_4 env d [7, 6, 5, 4]
                      (fst (read_bits_4 env d [7, 6, 5, 4] (0, ts @ cycle_open (pinE d))),
                       snd (read_bits_4 env d [7, 6, 5, 4] (0, ts @ cycle_open (pinE d)))
                         @ cycle_close (pinE d) @ cycle_open (pinE d)))),
                    snd (read_bits_4 env d [7, 6, 5, 4]
                      (fst (read_bits_4 env d [7, 6, 5, 4] (0, ts @ cycle_open (pinE d))),
                       snd (read_bits_4 env d [7, 6, 5, 4] (0, ts @ cycle_open (pinE d)))
                         @ cycle_close (pinE d) @ cycle_open (pinE d)))
                      @ cycle_close (pinE d) @ map (\<lambda>i. PinModeSet (pinDB d ! i) OUTPUT) [4, 5, 6, 7])))"
  using assms
  by (simp add: hd44780DigitalRead_4_def bus_mode_events Let_def case_prod_beta
      readCycleStart_events readCycleEnd_events setStatusPins_events option.map_comp comp_def
      split: option.split)

text \<open>A read of the memory on the simulated controller, from a state in which the memory
  register holds \<open>b\<close> and the host's latch of line 7 holds bit 3 of \<open>b\<close>. The handler
  turns lines 4 to 7 to input and then waits; the wait leaves line 7 an output, and the
  two samples of line 7 that follow return the host's latch instead of bits 7 and 3 of the
  register.\<close>

lemma lcd_read_back:
  fixes b :: "8 word"
  assumes pins: "distinct [pinRS d, pinRW d, pinE d, pinDB d ! 4, pinDB d ! 5, pinDB d ! 6, pinDB d ! 7]"
    and rd: "readEnabled d"
    and node: "dataStruct node = Some d"
    and st: "\<not> lcd_phase (lcd_run d t)" "\<not> lcd_wide (lcd_run d t)"
    and latch: "lcd_drv (lcd_run d t) 7 = bit b 3"
    and bits: "lcd_reg (lcd_run d t) True 6 = bit b 6"
      "lcd_reg (lcd_run d t) True 5 = bit b 5" "lcd_reg (lcd_run d t) True 4 = bit b 4"
      "lcd_reg (lcd_run d t) True 2 = bit b 2"
      "lcd_reg (lcd_run d t) True 1 = bit b 1" "lcd_reg (lcd_run d t) True 0 = bit b 0"
  shows "\<exists>t'. hd44780DigitalRead_4 (lcd_env d clk slp) node (pinBase node) t =
           Some (Inr (uint ((b AND 0x7F) OR (if bit b 3 then 0x80 else 0)), t'))"
proof -
  let ?env = "lcd_env d clk slp"
  let ?t0 = "t @ map (\<lambda>i. PinModeSet (pinDB d ! i) INPUT) [4, 5, 6, 7]"
  let ?tw = "?t0 @ prologue_events d (clk ?t0) @ ready_round_4 (pinE d) (pinDB d ! 7)"
  let ?ts = "?tw @ status_events d True True"
  have s0: "lcd_run d ?t0 =
      (lcd_run d t)\<lparr>lcd_dir := (lcd_dir (lcd_run d t))(4 := INPUT, 5 := INPUT, 6 := INPUT, 7 := INPUT)\<rparr>"
    by (simp only: lcd_run_append lcd_modes [OF pins])
  have a: "\<not> lcd_wide (lcd_run d ?t0)" "\<not> lcd_phase (lcd_run d ?t0)"
    using st by (simp_all only: s0) simp_all
  have w: "waitWhileBusy_4 ?env d ?t0 = Some ?tw"
    by (rule lcd_wait(1) [OF pins rd a])
  have sw: "lcd_run d ?tw =
      (lcd_run d ?t0)\<lparr>lcd_rs := False, lcd_rw := True, lcd_e := False,
                       lcd_dir := (lcd_dir (lcd_run d ?t0))(7 := OUTPUT), lcd_phase := False\<rparr>"
    by (rule lcd_wait(2) [OF pins rd a])
  have ss: "lcd_run d ?ts = (lcd_run d ?tw)\<lparr>lcd_rs := True, lcd_rw := True\<rparr>"
    unfolding lcd_run_append [of d ?tw] by (simp add: lcd_status [OF pins rd])
  have byte: "fst (read_bits_4 ?env d [7, 6, 5, 4]
           (fst (read_bits_4 ?env d [7, 6, 5, 4] (0, ?ts @ cycle_open (pinE d))),
            snd (read_bits_4 ?env d [7, 6, 5, 4] (0, ?ts @ cycle_open (pinE d)))
              @ cycle_close (pinE d) @ cycle_open (pinE d))) =
         (b AND 0x7F) OR (if bit b 3 then 0x80 else 0)"
  proof (rule lcd_sample [OF pins])
    show "lcd_rw (lcd_run d ?ts)" by (simp only: ss) simp
    show "lcd_rs (lcd_run d ?ts)" by (simp only: ss) simp
    show "\<not> lcd_phase (lcd_run d ?ts)" by (simp only: ss sw) simp
    show "\<not> lcd_wide (lcd_run d ?ts)" using st(2) by (simp only: ss sw s0) simp
    show "lcd_dir (lcd_run d ?ts) 7 = OUTPUT" by (simp only: ss sw s0) simp
    show "lcd_dir (lcd_run d ?ts) 6 = INPUT" by (simp only: ss sw s0) simp
    show "lcd_dir (lcd_run d ?ts) 5 = INPUT" by (simp only: ss sw s0) simp
    show "lcd_dir (lcd_run d ?ts) 4 = INPUT" by (simp only: ss sw s0) simp
    show "lcd_drv (lcd_run d ?ts) 7 = bit b 3" using latch by (simp only: ss sw s0) simp
    show "lcd_reg (lcd_run d ?ts) True 6 = bit b 6" using bits(1) by (simp only: ss sw s0) simp
    show "lcd_reg (lcd_run d ?ts) True 5 = bit b 5" using bits(2) by (simp only: ss sw s0) simp
    show "lcd_reg (lcd_run d ?ts) True 4 = bit b 4" using bits(3) by (simp only: ss sw s0) simp
    show "lcd_reg (lcd_run d ?ts) True 2 = bit b 2" using bits(4) by (simp only: ss sw s0) simp
    show "lcd_reg (lcd_run d ?ts) True 1 = bit b 1" using bits(5) by (simp only: ss sw s0) simp
    show "lcd_reg (lcd_run d ?ts) True 0 = bit b 0" using bits(6) by (simp only: ss sw s0) simp
  qed
  have sel: "(if pinBase node = pinBase node
           then map_option (\<lambda>tw. tw @ status_events d True True) (waitWhileBusy_4 ?env d ?t0)
           else Some (?t0 @ status_events d False True)) = Some ?ts"
    by (simp only: w if_True option.map simp_thms)
  show ?thesis
    unfolding read_4_unfold [OF node rd] sel option.case byte by blast
qed

lemma lcd_round_trip:
  fixes b :: "8 word"
  assumes node: "dataStruct node = Some d"
    and rd: "readEnabled d"
    and pins: "distinct [pinRS d, pinRW d, pinE d, pinDB d ! 4, pinDB d ! 5, pinDB d ! 6, pinDB d ! 7]"
    and st: "\<not> lcd_wide (lcd_run d tr)" "\<not> lcd_phase (lcd_run d tr)"
    and out: "lcd_dir (lcd_run d tr) 4 = OUTPUT" "lcd_dir (lcd_run d tr) 5 = OUTPUT"
      "lcd_dir (lcd_run d tr) 6 = OUTPUT" "lcd_dir (lcd_run d tr) 7 = OUTPUT"
  shows "\<exists>d' tw tr' tr''.
           hd44780DigitalWrite_4 (lcd_env d clk slp) node (pinBase node) (uint b) tr =
             Some (Inr (node\<lparr>dataStruct := Some d'\<rparr>, tr')) \<and>
           tr' = tw @ encoder_4_events d True b @ [ClockGet] \<and>
           hd44780DigitalRead_4 (lcd_env d clk slp) (node\<lparr>dataStruct := Some d'\<rparr>) (pinBase node) tr' =
             Some (Inr (uint ((b AND 0x7F) OR (if bit b 3 then 0x80 else 0)), tr''))"
proof -
  let ?env = "lcd_env d clk slp"
  let ?tw = "tr @ prologue_events d (clk tr) @ ready_round_4 (pinE d) (pinDB d ! 7)"
  let ?tr' = "?tw @ encoder_4_events d True b @ [ClockGet]"
  let ?d' = "d\<lparr>operation_end := timespec_add (clk (?tw @ encoder_4_events d True b)) (busy_delay True b)\<rparr>"
  let ?node' = "node\<lparr>dataStruct := Some ?d'\<rparr>"
  have w: "waitWhileBusy_4 ?env d tr = Some ?tw"
    by (rule lcd_wait(1) [OF pins rd st])
  have sw: "lcd_run d ?tw =
      (lcd_run d tr)\<lparr>lcd_rs := False, lcd_rw := True, lcd_e := False,
                      lcd_dir := (lcd_dir (lcd_run d tr))(7 := OUTPUT), lcd_phase := False\<rparr>"
    by (rule lcd_wait(2) [OF pins rd st])
  have aw: "\<not> lcd_phase (lcd_run d ?tw)" "\<not> lcd_wide (lcd_run d ?tw)"
    using st by (simp_all only: sw) simp_all
  have ow: "lcd_dir (lcd_run d ?tw) 4 = OUTPUT" "lcd_dir (lcd_run d ?tw) 5 = OUTPUT"
    "lcd_dir (lcd_run d ?tw) 6 = OUTPUT" "lcd_dir (lcd_run d ?tw) 7 = OUTPUT"
    using out by (simp_all only: sw) simp_all
  have written: "hd44780DigitalWrite_4 ?env node (pinBase node) (uint b) tr = Some (Inr (?node', ?tr'))"
    by (simp add: write_4_unfold [OF node] w)
  have s': "lcd_run d ?tr' = foldl (lcd_step d) (lcd_run d ?tw) (encoder_4_events d True b)"
    unfolding lcd_run_append [of d ?tw] by simp
  note enc = lcd_encoder [OF pins rd aw ow, of b, folded s']
  have pins': "distinct [pinRS ?d', pinRW ?d', pinE ?d', pinDB ?d' ! 4, pinDB ?d' ! 5, pinDB ?d' ! 6, pinDB ?d' ! 7]"
    using pins by simp
  have rd': "readEnabled ?d'" using rd by simp
  have node': "dataStruct ?node' = Some ?d'" by simp
  have base: "pinBase ?node' = pinBase node" by simp
  have "\<exists>t'. hd44780DigitalRead_4 (lcd_env ?d' clk slp) ?node' (pinBase ?node') ?tr' =
          Some (Inr (uint ((b AND 0x7F) OR (if bit b 3 then 0x80 else 0)), t'))"
  proof (rule lcd_read_back [OF pins' rd' node'])
    show "\<not> lcd_phase (lcd_run ?d' ?tr')" using enc(1) by simp
    show "\<not> lcd_wide (lcd_run ?d' ?tr')" using enc(2) by simp
    show "lcd_drv (lcd_run ?d' ?tr') 7 = bit b 3" using enc(3) by simp
    show "lcd_reg (lcd_run ?d' ?tr') True 6 = bit b 6" using enc(5) by simp
    show "lcd_reg (lcd_run ?d' ?tr') True 5 = bit b 5" using enc(6) by simp
    show "lcd_reg (lcd_run ?d' ?tr') True 4 = bit b 4" using enc(7) by simp
    show "lcd_reg (lcd_run ?d' ?tr') True 2 = bit b 2" using enc(9) by simp
    show "lcd_reg (lcd_run ?d' ?tr') True 1 = bit b 1" using enc(10) by simp
    show "lcd_reg (lcd_run ?d' ?tr') True 0 = bit b 0" using enc(11) by simp
  qed
  then obtain t' where "hd44780DigitalRead_4 ?env ?node' (pinBase node) ?tr' =
      Some (Inr (uint ((b AND 0x7F) OR (if bit b 3 then 0x80 else 0)), t'))"
    unfolding base lcd_env_operation_end by blast
  with written show ?thesis by blast
qed

text \<open>\<^verbatim>\<open>hd44780Setup\<close> on the simulated controller, for a node on base pin 64 with the pins
  of \<open>demo_data\<close>, reading enabled and no 8-bit capability: the node it returns and the
  events it adds. The single strobe cycle with line 5 high is the function-set instruction
  that takes the controller from the 8-bit interface it starts with to the 4-bit one.\<close>

lemma lcd_setup_4:
  "hd44780Setup (lcd_env d clk slp) 64 True False 0 1 2 10 9 8 7 6 5 4 3 [] =
     Inr (EXIT_SUCCESS,
          Some (demo_node (demo_data True False False) Hd44780DigitalWrite_4 Hd44780DigitalRead_4),
          [NewNode 64 2, Malloc,
           PinPull 0 PUD_UP, PinModeSet 0 OUTPUT, PinWrite 0 LOW,
           PinPull 1 PUD_UP, PinModeSet 1 OUTPUT, PinWrite 1 LOW,
           PinPull 2 PUD_UP, PinModeSet 2 OUTPUT, PinWrite 2 LOW,
           PinPull 10 PUD_UP, PinModeSet 10 OUTPUT, PinWrite 10 LOW,
           PinPull 9 PUD_UP, PinModeSet 9 OUTPUT, PinWrite 9 LOW,
           PinPull 8 PUD_UP, PinModeSet 8 OUTPUT, PinWrite 8 LOW,
           PinPull 7 PUD_UP, PinModeSet 7 OUTPUT, PinWrite 7 LOW,
           PinWrite 2 HIGH, PinWrite 8 HIGH, DelayNs 300, PinWrite 2 LOW, DelayNs 300,
           PinWrite 8 LOW, DelayUs 37])"
  by (simp add: hd44780Setup_def check_preconditions_report referenced_pins_def invalid_pin_def
      Let_def setupPin_events writeCycleStart_events writeCycleEnd_events digitalWrite_def
      delayMicroseconds_def fresh_node_def demo_node_def demo_data_def)

lemma lcd_after_setup_4:
  "lcd_run (demo_data True False False)
     [NewNode 64 2, Malloc,
      PinPull 0 PUD_UP, PinModeSet 0 OUTPUT, PinWrite 0 LOW,
      PinPull 1 PUD_UP, PinModeSet 1 OUTPUT, PinWrite 1 LOW,
      PinPull 2 PUD_UP, PinModeSet 2 OUTPUT, PinWrite 2 LOW,
      PinPull 10 PUD_UP, PinModeSet 10 OUTPUT, PinWrite 10 LOW,
      PinPull 9 PUD_UP, PinModeSet 9 OUTPUT, PinWrite 9 LOW,
      PinPull 8 PUD_UP, PinModeSet 8 OUTPUT, PinWrite 8 LOW,
      PinPull 7 PUD_UP, PinModeSet 7 OUTPUT, PinWrite 7 LOW,
      PinWrite 2 HIGH, PinWrite 8 HIGH, DelayNs 300, PinWrite 2 LOW, DelayNs 300,
      PinWrite 8 LOW, DelayUs 37] =
   lcd_init\<lparr>lcd_dir := (\<lambda>i. if i \<in> {4, 5, 6, 7} then OUTPUT else INPUT),
            lcd_pull := (\<lambda>i. if i \<in> {4, 5, 6, 7} then PUD_UP else PUD_OFF),
            lcd_wide := False\<rparr>"
  by (simp add: lcd_run_def lcd_init_def data_line_def strobe_fall_def line_level_def
      function_set_def fun_eq_iff)

lemma idle_read_4:
  "\<exists>tr'. hd44780DigitalRead_4 idle_env
           (demo_node (demo_data True m8e False) w r) 65 tr = Some (Inr (0, tr'))"
  by (simp add: read_4_unfold [where d = "demo_data True m8e False"] read_bits_4_def digitalRead_def
      shift_in_def)

lemma idle_read_8:
  "\<exists>tr'. hd44780DigitalRead_8 idle_env
           (demo_node (demo_data True True True) w r) 64 tr = Some (Inr (0, tr'))"
  by (simp add: hd44780DigitalRead_8_def read_bits_8_def digitalRead_def Let_def)

subsection \<open>The claims\<close>

text \<open>Claim C1 does not hold of the code: the round trip of a byte through the memory of
  the simulated controller loses bit 7. The node has the 4-bit handlers installed and can
  read; its seven pins are distinct; the controller has the 4-bit interface and is at the
  start of a transfer; lines 4 to 7 are outputs, as \<^verbatim>\<open>hd44780Setup\<close> and both handlers
  leave them. Writing a byte \<open>b\<close> to the memory (the base pin) through the installed
  write handler returns, sending the byte with the 4-bit encoder, high nibble in the
  first strobe cycle and low nibble in the second. Reading the memory through the
  installed read handler right after it returns too, but what it returns is \<open>b\<close> with
  bit 7 replaced by bit 3, which differs from \<open>b\<close> exactly when bits 7 and 3 of \<open>b\<close> differ.
  \<^verbatim>\<open>hd44780DigitalRead_4\<close> turns lines 4 to 7 to input before it calls
  \<^verbatim>\<open>waitWhileBusy_4\<close>, and the wait ends by turning line 7 back to output; the two
  samples of line 7 then read the host's own output latch, which still holds what the
  second nibble of the write put there, bit 3. (\<^verbatim>\<open>hd44780DigitalRead_8\<close> waits first and
  turns the lines to input afterwards.) The clock and the sleep are arbitrary.\<close>

theorem round_trip_4_memory_reads_own_line_7:
  fixes b :: "8 word"
  assumes node: "dataStruct node = Some d"
    and handlers: "node_digitalWrite node = Hd44780DigitalWrite_4" "node_digitalRead node = Hd44780DigitalRead_4"
    and rd: "readEnabled d"
    and pins: "distinct [pinRS d, pinRW d, pinE d, pinDB d ! 4, pinDB d ! 5, pinDB d ! 6, pinDB d ! 7]"
    and st: "\<not> lcd_wide (lcd_run d tr)" "\<not> lcd_phase (lcd_run d tr)"
    and out: "lcd_dir (lcd_run d tr) 4 = OUTPUT" "lcd_dir (lcd_run d tr) 5 = OUTPUT"
      "lcd_dir (lcd_run d tr) 6 = OUTPUT" "lcd_dir (lcd_run d tr) 7 = OUTPUT"
  shows "\<exists>node' tw tr' tr'' v.
           call_digitalWrite (lcd_env d clk slp) node (pinBase node) (uint b) tr = Some (Inr (node', tr')) \<and>
           tr' = tw @ encoder_4_events d True b @ [ClockGet] \<and>
           call_digitalRead (lcd_env d clk slp) node' (pinBase node) tr' = Some (Inr (v, tr'')) \<and>
           v = uint ((b AND 0x7F) OR (if bit b 3 then 0x80 else 0)) \<and>
           (v = uint b) = (bit b 7 = bit b 3)"
proof -
  let ?v = "(b AND 0x7F) OR (if bit b 3 then 0x80 else 0)"
  from lcd_round_trip [OF node rd pins st out, of clk slp b]
  obtain d' tw tr' tr'' where
    w: "hd44780DigitalWrite_4 (lcd_env d clk slp) node (pinBase node) (uint b) tr =
          Some (Inr (node\<lparr>dataStruct := Some d'\<rparr>, tr'))"
    and t: "tr' = tw @ encoder_4_events d True b @ [ClockGet]"
    and r: "hd44780DigitalRead_4 (lcd_env d clk slp) (node\<lparr>dataStruct := Some d'\<rparr>) (pinBase node) tr' =
          Some (Inr (uint ?v, tr''))"
    by blast
  have "call_digitalWrite (lcd_env d clk slp) node (pinBase node) (uint b) tr =
          Some (Inr (node\<lparr>dataStruct := Some d'\<rparr>, tr'))"
    using w handlers(1) by (simp add: call_digitalWrite_def)
  moreover have "call_digitalRead (lcd_env d clk slp) (node\<lparr>dataStruct := Some d'\<rparr>) (pinBase node) tr' =
          Some (Inr (uint ?v, tr''))"
    using r handlers(2) by (simp add: call_digitalRead_def)
  moreover have "(uint ?v = uint b) = (bit b 7 = bit b 3)"
    by (rule line_7_own_differs)
  ultimately show ?thesis using t by blast
qed

text \<open>The run from power-on: \<^verbatim>\<open>hd44780Setup\<close> for a node on base pin 64 with reading
  enabled and without the 8-bit capability, then \<open>0xA5\<close> written to the memory and the
  memory read back. The read returns \<open>0x25\<close>.\<close>

theorem round_trip_4_memory_reads_own_line_7_witness:
  "\<exists>node tr0 node' tr' tr''.
     hd44780Setup (lcd_env (demo_data True False False) (\<lambda>tr. \<lparr>tv_sec = 0, tv_nsec = 0\<rparr>) (\<lambda>tr t. 0))
       64 True False 0 1 2 10 9 8 7 6 5 4 3 [] = Inr (EXIT_SUCCESS, Some node, tr0) \<and>
     call_digitalWrite (lcd_env (demo_data True False False) (\<lambda>tr. \<lparr>tv_sec = 0, tv_nsec = 0\<rparr>) (\<lambda>tr t. 0))
       node 64 0xA5 tr0 = Some (Inr (node', tr')) \<and>
     call_digitalRead (lcd_env (demo_data True False False) (\<lambda>tr. \<lparr>tv_sec = 0, tv_nsec = 0\<rparr>) (\<lambda>tr t. 0))
       node' 64 tr' = Some (Inr (0x25, tr''))"
proof -
  let ?d = "demo_data True False False"
  let ?n = "demo_node ?d Hd44780DigitalWrite_4 Hd44780DigitalRead_4"
  let ?tr0 = "[NewNode 64 2, Malloc,
      PinPull 0 PUD_UP, PinModeSet 0 OUTPUT, PinWrite 0 LOW,
      PinPull 1 PUD_UP, PinModeSet 1 OUTPUT, PinWrite 1 LOW,
      PinPull 2 PUD_UP, PinModeSet 2 OUTPUT, PinWrite 2 LOW,
      PinPull 10 PUD_UP, PinModeSet 10 OUTPUT, PinWrite 10 LOW,
      PinPull 9 PUD_UP, PinModeSet 9 OUTPUT, PinWrite 9 LOW,
      PinPull 8 PUD_UP, PinModeSet 8 OUTPUT, PinWrite 8 LOW,
      PinPull 7 PUD_UP, PinModeSet 7 OUTPUT, PinWrite 7 LOW,
      PinWrite 2 HIGH, PinWrite 8 HIGH, DelayNs 300, PinWrite 2 LOW, DelayNs 300,
      PinWrite 8 LOW, DelayUs 37]"
  have node: "dataStruct ?n = Some ?d" by simp
  have handlers: "node_digitalWrite ?n = Hd44780DigitalWrite_4" "node_digitalRead ?n = Hd44780DigitalRead_4"
    by simp_all
  have rd: "readEnabled ?d" by simp
  have pins: "distinct [pinRS ?d, pinRW ?d, pinE ?d, pinDB ?d ! 4, pinDB ?d ! 5, pinDB ?d ! 6, pinDB ?d ! 7]"
    by simp
  have st: "\<not> lcd_wide (lcd_run ?d ?tr0)" "\<not> lcd_phase (lcd_run ?d ?tr0)"
    by (simp_all only: lcd_after_setup_4) (simp_all add: lcd_init_def)
  have out: "lcd_dir (lcd_run ?d ?tr0) 4 = OUTPUT" "lcd_dir (lcd_run ?d ?tr0) 5 = OUTPUT"
      "lcd_dir (lcd_run ?d ?tr0) 6 = OUTPUT" "lcd_dir (lcd_run ?d ?tr0) 7 = OUTPUT"
    by (simp_all only: lcd_after_setup_4) simp_all
  show ?thesis
    using round_trip_4_memory_reads_own_line_7 [OF node handlers rd pins st out,
        of "\<lambda>tr. \<lparr>tv_sec = 0, tv_nsec = 0\<rparr>" "\<lambda>tr t. 0" "0xA5"]
    by (simp add: lcd_setup_4) blast
qed

text \<open>Claim C2, as the code has it. A node set up without the 8-bit capability gets the
  handler \<^verbatim>\<open>hd44780DigitalWrite_4\<close>, which does not look at the byte for a change of
  width. After the instruction FunctionSet with the 8-bit flag the state is still 4-bit,
  the handler is still the 4-bit one, and the next write goes out through the 4-bit
  encoder: the 4-bit wait, then two strobe cycles on data lines 4 to 7.\<close>

theorem four_bit_node_ignores_function_set:
  assumes init: "hd44780Setup env base rd False pRS pRW pE p7 p6 p5 p4 p3 p2 p1 p0 tr0 =
                    Inr (EXIT_SUCCESS, Some node, tr1)"
    and first: "call_digitalWrite env node (base + 1) (hd44780CMD_FnSet True lines font) tr =
                    Some (Inr (node1, tr2))"
    and second: "call_digitalWrite env node1 pin data tr3 = Some (Inr (node2, tr4))"
  shows "node_digitalWrite node = Hd44780DigitalWrite_4 \<and>
         (\<exists>d1 tw. dataStruct node1 = Some d1 \<and> \<not> mode8 d1 \<and>
            node_digitalWrite node1 = Hd44780DigitalWrite_4 \<and>
            waitWhileBusy_4 env d1 tr3 = Some tw \<and>
            tr4 = tw @ encoder_4_events d1 (pin = base) (word_of_int data) @ [ClockGet])"
proof -
  from setup_4_node [OF init] obtain d where
    h: "node_digitalWrite node = Hd44780DigitalWrite_4" and b: "pinBase node = base"
    and d: "dataStruct node = Some d" and m: "\<not> mode8 d" by blast
  from first h have w1: "hd44780DigitalWrite_4 env node (base + 1) (hd44780CMD_FnSet True lines font) tr =
                    Some (Inr (node1, tr2))"
    by (simp add: call_digitalWrite_def)
  from write_4_keeps_node [OF d w1] h b m obtain d1 where
    h1: "node_digitalWrite node1 = Hd44780DigitalWrite_4" and b1: "pinBase node1 = base"
    and d1: "dataStruct node1 = Some d1" and m1: "\<not> mode8 d1" by auto
  from second h1 have w2: "hd44780DigitalWrite_4 env node1 pin data tr3 = Some (Inr (node2, tr4))"
    by (simp add: call_digitalWrite_def)
  with d1 b1 obtain tw where "waitWhileBusy_4 env d1 tr3 = Some tw"
    "tr4 = tw @ encoder_4_events d1 (pin = base) (word_of_int data) @ [ClockGet]"
    by (auto simp add: write_4_unfold split: option.splits)
  with h d1 m1 h1 show ?thesis by blast
qed

theorem four_bit_node_ignores_function_set_witness:
  "\<exists>node tr1 node1 tr2 node2 tr4 d1 tw.
     hd44780Setup idle_env 64 True False 0 1 2 10 9 8 7 6 5 4 3 [] = Inr (EXIT_SUCCESS, Some node, tr1) \<and>
     call_digitalWrite idle_env node 65 (hd44780CMD_FnSet True False False) tr1 = Some (Inr (node1, tr2)) \<and>
     call_digitalWrite idle_env node1 64 0x41 tr2 = Some (Inr (node2, tr4)) \<and>
     dataStruct node1 = Some d1 \<and> \<not> mode8 d1 \<and> node_digitalWrite node1 = Hd44780DigitalWrite_4 \<and>
     waitWhileBusy_4 idle_env d1 tr2 = Some tw \<and>
     tr4 = tw @ encoder_4_events d1 True 0x41 @ [ClockGet]"
proof -
  obtain node tr1 where
    s: "hd44780Setup idle_env 64 True False 0 1 2 10 9 8 7 6 5 4 3 [] = Inr (EXIT_SUCCESS, Some node, tr1)"
    and n: "node = demo_node (demo_data True False False) Hd44780DigitalWrite_4 Hd44780DigitalRead_4"
    by (simp add: demo_setup_4)
  obtain node1 tr2 where
    r1: "call_digitalWrite idle_env node (64 + 1) (hd44780CMD_FnSet True False False) tr1 = Some (Inr (node1, tr2))"
    and n1: "node1 = demo_node ((demo_data True False False)\<lparr>operation_end :=
                   timespec_add \<lparr>tv_sec = 0, tv_nsec = 0\<rparr> (busy_delay False (word_of_int (hd44780CMD_FnSet True False False)))\<rparr>)
                   Hd44780DigitalWrite_4 Hd44780DigitalRead_4"
    unfolding n by (simp add: call_digitalWrite_def idle_write_4 [where d = "demo_data True False False"])
  obtain node2 tr4 where
    r2: "call_digitalWrite idle_env node1 64 0x41 tr2 = Some (Inr (node2, tr4))"
    unfolding n1 by (simp add: call_digitalWrite_def idle_write_4)
  from four_bit_node_ignores_function_set [OF s r1 r2] s r1 r2 show ?thesis
    by auto
qed

text \<open>The run of the claim: a node set up on base pin 64 with reading enabled and
  without the 8-bit capability, then the instruction FunctionSet(8-bit) written to pin
  65. The active width is still 4-bit afterwards, where the claim says it has flipped to
  8-bit.\<close>

theorem setup_4_function_set_8_counterexample:
  "\<exists>node tr1 node1 tr2.
     hd44780Setup idle_env 64 True False 0 1 2 10 9 8 7 6 5 4 3 [] = Inr (EXIT_SUCCESS, Some node, tr1) \<and>
     call_digitalWrite idle_env node 65 (hd44780CMD_FnSet True False False) tr1 = Some (Inr (node1, tr2)) \<and>
     map_option mode8 (dataStruct node1) = Some False \<and>
     node_digitalWrite node1 = Hd44780DigitalWrite_4"
  by (simp add: demo_setup_4 call_digitalWrite_def idle_write_4 [where d = "demo_data True False False"])

text \<open>Claim C3, as the code has it: after a completed write through either handler, the
  deadline stored in the node is the time the clock showed at the end of the write plus
  the extended delay if the write went to the memory (\<open>pin\<close> is the base pin), plus
  the long (reset) delay if it was an instruction whose whole 8-bit value is at most 3,
  and plus the short (standard) delay for every other instruction. The test is on all
  eight bits of the byte, not on its low six bits.\<close>

theorem delay_class_by_byte_value:
  assumes node: "dataStruct node = Some d"
    and run: "hd44780DigitalWrite_4 env node pin data tr = Some (Inr (node', tr'))
              \<or> hd44780DigitalWrite_8 env node pin data tr = Some (Inr (node', tr'))"
  shows "\<exists>d'. dataStruct node' = Some d' \<and>
           operation_end d' =
             timespec_add (env_clock_gettime env (butlast tr'))
               (if pin = pinBase node then extended_busy_delay
                else if data mod 256 \<le> 3 then reset_busy_delay
                else standard_busy_delay)"
proof -
  have four: "\<exists>d'. dataStruct node' = Some d' \<and> operation_end d' =
             timespec_add (env_clock_gettime env (butlast tr')) (busy_delay (pin = pinBase n) (word_of_int data))"
    if "dataStruct n = Some e" "hd44780DigitalWrite_4 env n pin data tr = Some (Inr (node', tr'))" for n e
    using that by (auto simp add: write_4_unfold butlast_append split: option.splits)
  have ?thesis if "hd44780DigitalWrite_4 env node pin data tr = Some (Inr (node', tr'))"
    using four [OF node that] by (simp add: busy_delay_by_value)
  moreover have ?thesis if r8: "hd44780DigitalWrite_8 env node pin data tr = Some (Inr (node', tr'))"
  proof (cases "mode8 d")
    case True
    with node r8 show ?thesis
      by (auto simp add: write_8_body butlast_append busy_delay_by_value split: option.splits)
  next
    case False
    from r8 have "hd44780DigitalWrite_4 env
         (node\<lparr>dataStruct := Some (d\<lparr>mode8 := (pin \<noteq> pinBase node \<and> (word_of_int data :: 8 word) AND 0xF0 = 0x30)\<rparr>)\<rparr>) pin data tr
         = Some (Inr (node', tr'))"
      by (simp add: write_8_delegates [OF node False])
    from four [OF _ this] show ?thesis by (simp add: busy_delay_by_value)
  qed
  ultimately show ?thesis using run by blast
qed

theorem delay_class_by_byte_value_witness:
  "\<exists>node' tr' d'. hd44780DigitalWrite_4 idle_env (demo_node (demo_data False False False) Hd44780DigitalWrite_4 NoReadHandler) 65 0x02 [] = Some (Inr (node', tr'))
     \<and> dataStruct node' = Some d' \<and> operation_end d' = \<lparr>tv_sec = 0, tv_nsec = 1520000\<rparr>"
proof -
  let ?n = "demo_node (demo_data False False False) Hd44780DigitalWrite_4 NoReadHandler"
  obtain node' tr' where run: "hd44780DigitalWrite_4 idle_env ?n 65 0x02 [] = Some (Inr (node', tr'))"
    by (simp add: demo_write_4)
  have n: "dataStruct ?n = Some (demo_data False False False)" by simp
  from delay_class_by_byte_value [OF n disjI1 [OF run]]
  obtain d' where "dataStruct node' = Some d'" and "operation_end d' =
             timespec_add (env_clock_gettime idle_env (butlast tr'))
               (if (65::int) = pinBase ?n then extended_busy_delay
                else if (0x02::int) mod 256 \<le> 3 then reset_busy_delay
                else standard_busy_delay)" by blast
  then show ?thesis using run
    by (simp add: timespec_add_def reset_busy_delay_def
        signed_divide_int_def signed_modulo_int_def)
qed

text \<open>The instruction \<open>0x40\<close> (set the CGRAM address to 0) has its low six bits equal to 0,
  yet the deadline stored is the clock plus the standard delay, not plus the reset delay:
  the claim as stated, with the test on the low six bits, fails on the code.\<close>

theorem delay_class_low_six_bits_counterexample:
  "(0x40 :: 8 word) AND 0x3F \<le> 3 \<and>
   (\<exists>node' tr' d'. hd44780DigitalWrite_4 idle_env (demo_node (demo_data False False False) Hd44780DigitalWrite_4 NoReadHandler) 65 0x40 [] = Some (Inr (node', tr'))
     \<and> dataStruct node' = Some d'
     \<and> operation_end d' = timespec_add \<lparr>tv_sec = 0, tv_nsec = 0\<rparr> standard_busy_delay
     \<and> operation_end d' \<noteq> timespec_add \<lparr>tv_sec = 0, tv_nsec = 0\<rparr> reset_busy_delay)"
  by (simp add: demo_write_4 busy_delay_def timespec_add_def standard_busy_delay_def reset_busy_delay_def
        signed_divide_int_def signed_modulo_int_def)

text \<open>Claim C4, as the code has it. The handler \<^verbatim>\<open>hd44780DigitalWrite_8\<close> follows the
  width: an instruction (\<open>pin\<close> is not the base pin) whose high nibble is 3 sets the
  state to 8-bit when it was 4-bit, one whose high nibble is 2 sets it to 4-bit when it
  was 8-bit, and a memory write or any other instruction leaves it. The byte that asks for
  the switch is itself sent with the width that was active before the call: the state
  before the call picks the wait and the encoder. The handler \<^verbatim>\<open>hd44780DigitalWrite_4\<close>,
  which a node without the 8-bit capability has installed, never changes the state.\<close>

theorem mode_switch_sent_in_old_width:
  assumes node: "dataStruct node = Some d"
  shows "(hd44780DigitalWrite_8 env node pin data tr = Some (Inr (node', tr')) \<longrightarrow>
           (\<exists>d' tw. dataStruct node' = Some d' \<and>
              mode8 d' =
                (if pin \<noteq> pinBase node \<and> \<not> mode8 d \<and> (word_of_int data :: 8 word) AND 0xF0 = 0x30 then True
                 else if pin \<noteq> pinBase node \<and> mode8 d \<and> (word_of_int data :: 8 word) AND 0xF0 = 0x20 then False
                 else mode8 d) \<and>
              (if mode8 d
               then waitWhileBusy_8 env d tr = Some tw \<and>
                    tr' = tw @ encoder_8_events d (pin = pinBase node) (word_of_int data) @ [ClockGet]
               else waitWhileBusy_4 env d tr = Some tw \<and>
                    tr' = tw @ encoder_4_events d (pin = pinBase node) (word_of_int data) @ [ClockGet])))
       \<and> (hd44780DigitalWrite_4 env node pin data tr = Some (Inr (node', tr')) \<longrightarrow>
           (\<exists>d'. dataStruct node' = Some d' \<and> mode8 d' = mode8 d))"
proof (intro conjI impI)
  assume r4: "hd44780DigitalWrite_4 env node pin data tr = Some (Inr (node', tr'))"
  with node show "\<exists>d'. dataStruct node' = Some d' \<and> mode8 d' = mode8 d"
    by (auto simp add: write_4_unfold split: option.splits)
next
  assume r8: "hd44780DigitalWrite_8 env node pin data tr = Some (Inr (node', tr'))"
  show "\<exists>d' tw. dataStruct node' = Some d' \<and>
              mode8 d' =
                (if pin \<noteq> pinBase node \<and> \<not> mode8 d \<and> (word_of_int data :: 8 word) AND 0xF0 = 0x30 then True
                 else if pin \<noteq> pinBase node \<and> mode8 d \<and> (word_of_int data :: 8 word) AND 0xF0 = 0x20 then False
                 else mode8 d) \<and>
              (if mode8 d
               then waitWhileBusy_8 env d tr = Some tw \<and>
                    tr' = tw @ encoder_8_events d (pin = pinBase node) (word_of_int data) @ [ClockGet]
               else waitWhileBusy_4 env d tr = Some tw \<and>
                    tr' = tw @ encoder_4_events d (pin = pinBase node) (word_of_int data) @ [ClockGet])"
  proof (cases "mode8 d")
    case True
    with node r8 show ?thesis
      by (auto simp add: write_8_body split: option.splits)
  next
    case False
    with node r8 show ?thesis
      by (auto simp add: write_8_delegates write_4_unfold split: option.splits)
  qed
qed

theorem mode_switch_sent_in_old_width_witness:
  "\<exists>node' tr' d'. hd44780DigitalWrite_8 idle_env (demo_node (demo_data False True True) Hd44780DigitalWrite_8 NoReadHandler) 65 0x20 [] = Some (Inr (node', tr'))
     \<and> dataStruct node' = Some d' \<and> mode8 d' = False
     \<and> tr' = [ClockGet] @ encoder_8_events (demo_data False True True) False 0x20 @ [ClockGet]"
proof -
  let ?d = "demo_data False True True"
  let ?n = "demo_node ?d Hd44780DigitalWrite_8 NoReadHandler"
  obtain node' tr' where run: "hd44780DigitalWrite_8 idle_env ?n 65 0x20 [] = Some (Inr (node', tr'))"
    by (simp add: demo_write_8_in_8)
  have n: "dataStruct ?n = Some ?d" by simp
  have m: "mode8 ?d" by simp
  have w: "waitWhileBusy_8 idle_env ?d [] = Some [ClockGet]" by simp
  from mode_switch_sent_in_old_width [OF n, of idle_env 65 "0x20" "[]" node' tr'] run
  obtain d' tw where "dataStruct node' = Some d'" "mode8 d' = False"
     "waitWhileBusy_8 idle_env ?d [] = Some tw"
     "tr' = tw @ encoder_8_events ?d False 0x20 @ [ClockGet]"
    using m by auto
  then show ?thesis using run w by simp
qed

text \<open>A node in 4-bit state with the 8-bit handler gets the instruction \<open>0x30\<close>. The state
  becomes 8-bit, and the byte goes out in two strobe cycles on data lines 4 to 7 (pins 7
  to 10), with lines 0 to 3 untouched: it is sent with the old width, not with the newly
  active one as the claim states.\<close>

theorem switch_byte_sent_in_new_width_counterexample:
  "hd44780DigitalWrite_8 idle_env (demo_node (demo_data False True False) Hd44780DigitalWrite_8 NoReadHandler) 65 0x30 [] =
     Some (Inr (demo_node ((demo_data False True True)\<lparr>operation_end := \<lparr>tv_sec = 0, tv_nsec = 37000\<rparr>\<rparr>)
                  Hd44780DigitalWrite_8 NoReadHandler,
                [ClockGet, PinWrite 0 LOW, DelayNs 50,
                 PinWrite 2 HIGH, PinWrite 7 1, PinWrite 8 1, PinWrite 9 0, PinWrite 10 0,
                 DelayNs 300, PinWrite 2 LOW, DelayNs 300,
                 PinWrite 2 HIGH, PinWrite 7 0, PinWrite 8 0, PinWrite 9 0, PinWrite 10 0,
                 DelayNs 300, PinWrite 2 LOW, DelayNs 300,
                 ClockGet]))"
  by (simp add: demo_write_8_in_4 busy_delay_def timespec_add_def standard_busy_delay_def
      signed_divide_int_def signed_modulo_int_def encoder_4_events_def status_events_def
      write_strobe_def drive_lines_def)

text \<open>Claim C5: when one of the pins that \<^verbatim>\<open>hd44780Setup\<close> references (the read/write pin
  only for a node that can read, data lines 0 to 3 only for a node with the 8-bit
  capability) is invalid, that is negative, or at least 64 with no node registered for
  it, the function returns failure with no node, and all it adds to the trace is one
  report for every invalid referenced pin, in the order of the checks, and the closing
  message. No node is created, nothing is allocated, no handler is installed, and no pin
  is written, pulled or configured.\<close>

theorem setup_rejects_invalid_pins:
  assumes "\<exists>np \<in> set (referenced_pins rd m8 pRS pRW pE p7 p6 p5 p4 p3 p2 p1 p0). invalid_pin env np"
  shows "hd44780Setup env base rd m8 pRS pRW pE p7 p6 p5 p4 p3 p2 p1 p0 tr =
           Inr (EXIT_FAILURE, None,
                tr @ map report (filter (invalid_pin env)
                                   (referenced_pins rd m8 pRS pRW pE p7 p6 p5 p4 p3 p2 p1 p0))
                   @ [Fputs (''hd44780Setup() failed.'' @ [CHR 0x0A])])"
  using assms by (simp add: hd44780Setup_def check_preconditions_report Let_def)

theorem setup_rejects_invalid_pins_witness:
  "hd44780Setup idle_env 64 True False 0 (-1) 2 10 9 64 7 (-5) 5 4 3 [] =
     Inr (EXIT_FAILURE, None,
          [Fprintf ''Error: invalid pin number for pinRW: '' (-1),
           Fprintf ''Error: invalid pin number for pinDB5: '' 64,
           Fputs (''hd44780Setup() failed.'' @ [CHR 0x0A])])"
proof -
  have "\<exists>np \<in> set (referenced_pins True False 0 (-1) 2 10 9 64 7 (-5) 5 4 3). invalid_pin idle_env np"
    by (simp add: referenced_pins_def invalid_pin_def)
  from setup_rejects_invalid_pins [OF this, of 64 "[]"] show ?thesis
    by (simp add: referenced_pins_def invalid_pin_def report_def)
qed

text \<open>Claim C6 does not hold of the code. With valid pins and \<^verbatim>\<open>wiringPiNewNode\<close>
  returning null, \<^verbatim>\<open>hd44780Setup\<close> prints its message and then, instead of returning,
  stores into \<^verbatim>\<open>node->dataStruct\<close> through the null pointer. (When the node exists and
  \<^verbatim>\<open>malloc\<close> fails, it does return failure with no handler installed:
  \<open>setup_no_data\<close>.)\<close>

theorem setup_null_node_dereferenced:
  "hd44780Setup (idle_env\<lparr>env_wiringPiNewNode := \<lambda>tr base n. False\<rparr>)
      64 True False 0 1 2 10 9 8 7 6 5 4 3 [] = Inl NullPointerDereference"
  by (rule setup_null_node) (simp_all add: referenced_pins_def invalid_pin_def idle_env_def)

text \<open>Claim C7: the frame of every operation. Whatever a wait, a write handler, a read
  handler or the set-up adds to the trace, its pin events (writes, reads, pulls and mode
  changes) address only the pins the node names for register select, for the strobe and
  for the data lines, and the pin named for read/write only if the node can read. The
  4-bit paths (both waits, the 4-bit handlers, and the 8-bit handlers while the state is
  4-bit) address of the data lines only lines 4 to 7; the set-up addresses lines 0 to 3
  only with the 8-bit capability. So with reading disabled no event is addressed to the
  read/write pin as such, and in 4-bit mode none to data lines 0 to 3: a pin id stored
  there appears in the trace only if the same id is also stored for another line.\<close>

theorem capability_gated_pins_untouched:
  "(waitWhileBusy_8 env d tr = Some tr' \<longrightarrow> only_touches (ctl_pins d \<union> bus_hi d) tr tr')
 \<and> (waitWhileBusy_4 env d tr = Some tr' \<longrightarrow> only_touches (ctl_pins d \<union> bus_hi d) tr tr')
 \<and> (dataStruct node = Some d \<and> hd44780DigitalWrite_4 env node pin data tr = Some (Inr (node', tr'))
        \<longrightarrow> only_touches (ctl_pins d \<union> bus_hi d) tr tr')
 \<and> (dataStruct node = Some d \<and> hd44780DigitalWrite_8 env node pin data tr = Some (Inr (node', tr'))
        \<longrightarrow> only_touches (ctl_pins d \<union> bus_hi d \<union> (if mode8 d then bus_lo d else {})) tr tr')
 \<and> (dataStruct node = Some d \<and> hd44780DigitalRead_4 env node pin tr = Some (Inr (v, tr'))
        \<longrightarrow> only_touches (ctl_pins d \<union> bus_hi d) tr tr')
 \<and> (dataStruct node = Some d \<and> hd44780DigitalRead_8 env node pin tr = Some (Inr (v, tr'))
        \<longrightarrow> only_touches (ctl_pins d \<union> bus_hi d \<union> (if mode8 d then bus_lo d else {})) tr tr')
 \<and> (hd44780Setup env base rd m8 pRS pRW pE p7 p6 p5 p4 p3 p2 p1 p0 tr = Inr (ret, nd, tr')
        \<longrightarrow> only_touches ({pRS, pE, p7, p6, p5, p4} \<union> (if rd then {pRW} else {})
                              \<union> (if m8 then {p3, p2, p1, p0} else {})) tr tr')"
  using wait_frame_hi [of env d tr tr'] write_4_frame [of node d env pin data tr node' tr']
    write_8_frame [of node d env pin data tr node' tr'] read_4_frame [of node d env pin tr v tr']
    read_8_frame [of node d env pin tr v tr']
    setup_frame [of env base rd m8 pRS pRW pE p7 p6 p5 p4 p3 p2 p1 p0 tr ret nd tr']
  by blast

theorem capability_gated_pins_untouched_witness:
  "\<exists>node tr1 node1 tr2 node2 tr3 tr4 tr5 tr6 tr7.
     hd44780Setup idle_env 64 False False 0 1 2 10 9 8 7 6 5 4 3 [] = Inr (EXIT_SUCCESS, Some node, tr1) \<and>
     only_touches {0, 2, 10, 9, 8, 7} [] tr1 \<and>
     hd44780DigitalWrite_4 idle_env node 65 0x28 tr1 = Some (Inr (node1, tr2)) \<and>
     only_touches {0, 2, 7, 8, 9, 10} tr1 tr2 \<and>
     hd44780DigitalWrite_8 idle_env (demo_node (demo_data False True True) Hd44780DigitalWrite_8 NoReadHandler) 64 0x41 []
        = Some (Inr (node2, tr3)) \<and>
     only_touches {0, 2, 7, 8, 9, 10, 3, 4, 5, 6} [] tr3 \<and>
     hd44780DigitalRead_4 idle_env (demo_node (demo_data True False False) Hd44780DigitalWrite_4 Hd44780DigitalRead_4) 65 []
        = Some (Inr (0, tr4)) \<and>
     only_touches {0, 1, 2, 7, 8, 9, 10} [] tr4 \<and>
     hd44780DigitalRead_8 idle_env (demo_node (demo_data True True True) Hd44780DigitalWrite_8 Hd44780DigitalRead_8) 64 []
        = Some (Inr (0, tr5)) \<and>
     only_touches {0, 1, 2, 7, 8, 9, 10, 3, 4, 5, 6} [] tr5 \<and>
     waitWhileBusy_4 idle_env (demo_data True False False) [] = Some tr6 \<and>
     only_touches {0, 1, 2, 7, 8, 9, 10} [] tr6 \<and>
     waitWhileBusy_8 idle_env (demo_data False True True) [] = Some tr7 \<and>
     only_touches {0, 2, 7, 8, 9, 10} [] tr7"
proof -
  let ?d = "demo_data False False False"
  let ?d8 = "demo_data False True True"
  let ?n8 = "demo_node ?d8 Hd44780DigitalWrite_8 NoReadHandler"
  let ?r = "demo_data True False False"
  let ?nr = "demo_node ?r Hd44780DigitalWrite_4 Hd44780DigitalRead_4"
  let ?r8 = "demo_data True True True"
  let ?nr8 = "demo_node ?r8 Hd44780DigitalWrite_8 Hd44780DigitalRead_8"
  obtain node tr1 where
    s: "hd44780Setup idle_env 64 False False 0 1 2 10 9 8 7 6 5 4 3 [] = Inr (EXIT_SUCCESS, Some node, tr1)"
    and n: "node = demo_node ?d Hd44780DigitalWrite_4 NoReadHandler"
    by (simp add: demo_setup_4)
  obtain node1 tr2 where r: "hd44780DigitalWrite_4 idle_env node 65 0x28 tr1 = Some (Inr (node1, tr2))"
    unfolding n by (simp add: demo_write_4)
  obtain node2 tr3 where r8: "hd44780DigitalWrite_8 idle_env ?n8 64 0x41 [] = Some (Inr (node2, tr3))"
    by (simp add: demo_write_8_in_8)
  obtain tr4 where rr: "hd44780DigitalRead_4 idle_env ?nr 65 [] = Some (Inr (0, tr4))"
    using idle_read_4 by blast
  obtain tr5 where rr8: "hd44780DigitalRead_8 idle_env ?nr8 64 [] = Some (Inr (0, tr5))"
    using idle_read_8 by blast
  obtain tr6 where w4: "waitWhileBusy_4 idle_env ?r [] = Some tr6" by simp
  obtain tr7 where w8: "waitWhileBusy_8 idle_env ?d8 [] = Some tr7" by simp
  have dn: "dataStruct node = Some ?d" by (simp add: n)
  have dn8: "dataStruct ?n8 = Some ?d8" by simp
  have dnr: "dataStruct ?nr = Some ?r" by simp
  have dnr8: "dataStruct ?nr8 = Some ?r8" by simp
  have 1: "only_touches {0, 2, 10, 9, 8, 7} [] tr1"
    using capability_gated_pins_untouched [of idle_env ?d "[]" tr1 node 65 0 node1 0 64 False False 0 1 2 10 9 8 7 6 5 4 3 0 "Some node"] s
    by simp
  have 2: "only_touches {0, 2, 7, 8, 9, 10} tr1 tr2"
    using capability_gated_pins_untouched [of idle_env ?d tr1 tr2 node 65 "0x28" node1] dn r
    by (simp add: insert_commute)
  have 3: "only_touches {0, 2, 7, 8, 9, 10, 3, 4, 5, 6} [] tr3"
    using capability_gated_pins_untouched [of idle_env ?d8 "[]" tr3 ?n8 64 "0x41" node2] dn8 r8
    by (simp add: insert_commute Un_commute)
  have 4: "only_touches {0, 1, 2, 7, 8, 9, 10} [] tr4"
    using capability_gated_pins_untouched [of idle_env ?r "[]" tr4 ?nr 65 0 node1 0] dnr rr
    by (simp add: insert_commute)
  have 5: "only_touches {0, 1, 2, 7, 8, 9, 10, 3, 4, 5, 6} [] tr5"
    using capability_gated_pins_untouched [of idle_env ?r8 "[]" tr5 ?nr8 64 0 node1 0] dnr8 rr8
    by (simp add: insert_commute Un_commute)
  have 6: "only_touches {0, 1, 2, 7, 8, 9, 10} [] tr6"
    using capability_gated_pins_untouched [of idle_env ?r "[]" tr6] w4
    by (simp add: insert_commute)
  have 7: "only_touches {0, 2, 7, 8, 9, 10} [] tr7"
    using capability_gated_pins_untouched [of idle_env ?d8 "[]" tr7] w8
    by (simp add: insert_commute)
  from s r r8 rr rr8 w4 w8 1 2 3 4 5 6 7 show ?thesis by blast
qed

text \<open>Claim C8: the busy wait of a read-capable node in 4-bit mode. Let the busy line
  (data line 7) read high at the first \<open>n\<close> samples and low at the next one. Then the
  wait returns, and what it adds to the trace is: the prologue, which ends with a strobe
  cycle opened; \<open>n\<close> busy rounds, each the sample, the end of the sampled cycle, one full
  cycle whose nibble is not sampled, and the next cycle opened; and the ready round: the
  sample that reads low, line 7 back to output, the end of the sampled cycle, and exactly
  one more full strobe cycle. So every poll is two strobe cycles, and the wait ends one
  full cycle after the cycle in which the line read low.\<close>

theorem busy_wait_4_rounds:
  assumes rd: "readEnabled d"
    and busy: "\<forall>k<n. env_digitalRead env
                 (tr @ prologue_events d (env_clock_gettime env tr) @ rounds k (busy_round_4 (pinE d) (pinDB d ! 7)))
                 (pinDB d ! 7) \<noteq> LOW"
    and ready: "env_digitalRead env
                 (tr @ prologue_events d (env_clock_gettime env tr) @ rounds n (busy_round_4 (pinE d) (pinDB d ! 7)))
                 (pinDB d ! 7) = LOW"
  shows "waitWhileBusy_4 env d tr =
           Some (tr @ prologue_events d (env_clock_gettime env tr)
                    @ rounds n (busy_round_4 (pinE d) (pinDB d ! 7))
                    @ ready_round_4 (pinE d) (pinDB d ! 7))"
proof -
  let ?p = "tr @ prologue_events d (env_clock_gettime env tr)"
  have "busy_loop_4 env (pinE d) (pinDB d ! 7) ?p =
          Some (?p @ rounds n (busy_round_4 (pinE d) (pinDB d ! 7)) @ [PinRead (pinDB d ! 7)])"
    using busy ready by (intro busy_loop_4_rounds) simp_all
  then show ?thesis using rd
    by (simp add: waitWhileBusy_4_def wait_prologue_events ready_round_4_def full_cycle_def
        readCycleStart_events readCycleEnd_events pinMode_def)
qed

theorem busy_wait_4_rounds_witness:
  "waitWhileBusy_4 (busy_env 2) (demo_data True False False) [] =
     Some ([ClockGet, PinModeSet 10 INPUT, PinWrite 0 LOW, PinWrite 1 HIGH, DelayNs 50,
            PinWrite 2 HIGH, DelayNs 300,
            PinRead 10, PinWrite 2 LOW, DelayNs 300, PinWrite 2 HIGH, DelayNs 300,
                        PinWrite 2 LOW, DelayNs 300, PinWrite 2 HIGH, DelayNs 300,
            PinRead 10, PinWrite 2 LOW, DelayNs 300, PinWrite 2 HIGH, DelayNs 300,
                        PinWrite 2 LOW, DelayNs 300, PinWrite 2 HIGH, DelayNs 300,
            PinRead 10, PinModeSet 10 OUTPUT, PinWrite 2 LOW, DelayNs 300,
                        PinWrite 2 HIGH, DelayNs 300, PinWrite 2 LOW, DelayNs 300])"
proof -
  let ?d = "demo_data True False False"
  have rd: "readEnabled ?d" by (simp add: demo_data_def)
  have busy: "\<forall>k<2. env_digitalRead (busy_env 2)
                 ([] @ prologue_events ?d (env_clock_gettime (busy_env 2) []) @ rounds k (busy_round_4 (pinE ?d) (pinDB ?d ! 7)))
                 (pinDB ?d ! 7) \<noteq> LOW"
    by (simp add: numeral_2_eq_2 less_Suc_eq busy_env_def idle_env_def demo_data_def prologue_events_def
        status_events_def cycle_open_def cycle_close_def full_cycle_def busy_round_4_def far_away_def)
  have ready: "env_digitalRead (busy_env 2)
                 ([] @ prologue_events ?d (env_clock_gettime (busy_env 2) []) @ rounds 2 (busy_round_4 (pinE ?d) (pinDB ?d ! 7)))
                 (pinDB ?d ! 7) = LOW"
    by (simp add: numeral_2_eq_2 busy_env_def idle_env_def demo_data_def prologue_events_def
        status_events_def cycle_open_def cycle_close_def full_cycle_def busy_round_4_def far_away_def)
  show ?thesis
    using busy_wait_4_rounds [OF rd busy ready]
    by (simp add: numeral_2_eq_2 busy_env_def idle_env_def demo_data_def prologue_events_def
        status_events_def cycle_open_def cycle_close_def full_cycle_def busy_round_4_def
        ready_round_4_def far_away_def)
qed

text \<open>Claim C9, as the code has it. The wait of a node that cannot read, when the deadline
  is later than the clock, repeats the absolute sleep for as long as it returns nonzero:
  if it returns, the last sleep returned zero and every earlier one did not, and if the
  sleep returns zero at the call after \<open>n\<close> interrupted ones, the wait returns after exactly
  those \<open>n + 1\<close> calls. When the deadline is not later than the clock it does not sleep.
  The waits of a node that can read call the sleep once if the deadline is more than 100
  microseconds away and not at all otherwise; the call is never repeated, whatever it
  returns, and the wait goes on to poll the busy flag.\<close>

theorem blind_sleep_retried_without_read_only:
  "(waitWhileBusy_ReadDisabled env d tr = Some tr' \<longrightarrow>
      (if timespec_gt (operation_end d) (env_clock_gettime env tr)
       then \<exists>n. tr' = tr @ [ClockGet] @ replicate (Suc n) (ClockSleep (operation_end d)) \<and>
              (\<forall>k<n. env_clock_nanosleep env
                        (tr @ [ClockGet] @ replicate k (ClockSleep (operation_end d))) (operation_end d) \<noteq> 0) \<and>
              env_clock_nanosleep env
                (tr @ [ClockGet] @ replicate n (ClockSleep (operation_end d))) (operation_end d) = 0
       else tr' = tr @ [ClockGet]))
 \<and> (timespec_gt (operation_end d) (env_clock_gettime env tr) \<and>
      (\<forall>k<n. env_clock_nanosleep env
                (tr @ [ClockGet] @ replicate k (ClockSleep (operation_end d))) (operation_end d) \<noteq> 0) \<and>
      env_clock_nanosleep env
        (tr @ [ClockGet] @ replicate n (ClockSleep (operation_end d))) (operation_end d) = 0 \<longrightarrow>
      waitWhileBusy_ReadDisabled env d tr =
        Some (tr @ [ClockGet] @ replicate (Suc n) (ClockSleep (operation_end d))))
 \<and> (readEnabled d \<and> (waitWhileBusy_8 env d tr = Some tr' \<or> waitWhileBusy_4 env d tr = Some tr') \<longrightarrow>
      sleeps tr' = sleeps tr + (if far_away (operation_end d) (env_clock_gettime env tr) then 1 else 0))"
proof (intro conjI impI)
  assume r: "waitWhileBusy_ReadDisabled env d tr = Some tr'"
  show "if timespec_gt (operation_end d) (env_clock_gettime env tr)
       then \<exists>n. tr' = tr @ [ClockGet] @ replicate (Suc n) (ClockSleep (operation_end d)) \<and>
              (\<forall>k<n. env_clock_nanosleep env
                        (tr @ [ClockGet] @ replicate k (ClockSleep (operation_end d))) (operation_end d) \<noteq> 0) \<and>
              env_clock_nanosleep env
                (tr @ [ClockGet] @ replicate n (ClockSleep (operation_end d))) (operation_end d) = 0
       else tr' = tr @ [ClockGet]"
  proof (cases "timespec_gt (operation_end d) (env_clock_gettime env tr)")
    case True
    with r have "nanosleep_loop env (operation_end d) (tr @ [ClockGet]) = Some tr'"
      by (simp add: waitWhileBusy_ReadDisabled_def clock_gettime_def)
    from nanosleep_loop_returns [OF this] True show ?thesis by simp
  next
    case False
    with r show ?thesis by (auto simp add: waitWhileBusy_ReadDisabled_def clock_gettime_def)
  qed
next
  assume a: "timespec_gt (operation_end d) (env_clock_gettime env tr) \<and>
      (\<forall>k<n. env_clock_nanosleep env
                (tr @ [ClockGet] @ replicate k (ClockSleep (operation_end d))) (operation_end d) \<noteq> 0) \<and>
      env_clock_nanosleep env
        (tr @ [ClockGet] @ replicate n (ClockSleep (operation_end d))) (operation_end d) = 0"
  then have "nanosleep_loop env (operation_end d) (tr @ [ClockGet]) =
               Some ((tr @ [ClockGet]) @ replicate (Suc n) (ClockSleep (operation_end d)))"
    by (intro nanosleep_loop_rounds) simp_all
  with a show "waitWhileBusy_ReadDisabled env d tr =
        Some (tr @ [ClockGet] @ replicate (Suc n) (ClockSleep (operation_end d)))"
    by (simp add: waitWhileBusy_ReadDisabled_def clock_gettime_def)
next
  assume "readEnabled d \<and> (waitWhileBusy_8 env d tr = Some tr' \<or> waitWhileBusy_4 env d tr = Some tr')"
  then show "sleeps tr' = sleeps tr + (if far_away (operation_end d) (env_clock_gettime env tr) then 1 else 0)"
    using read_capable_wait_sleeps by blast
qed


theorem blind_sleep_retried_without_read_only_witness:
  "waitWhileBusy_ReadDisabled (restless_env 2)
      ((demo_data False False False)\<lparr>operation_end := \<lparr>tv_sec = 0, tv_nsec = 37000\<rparr>\<rparr>) [] =
     Some [ClockGet, ClockSleep \<lparr>tv_sec = 0, tv_nsec = 37000\<rparr>,
           ClockSleep \<lparr>tv_sec = 0, tv_nsec = 37000\<rparr>, ClockSleep \<lparr>tv_sec = 0, tv_nsec = 37000\<rparr>]
   \<and> (\<exists>tr'. waitWhileBusy_8 interrupted_env
               ((demo_data True False True)\<lparr>operation_end := \<lparr>tv_sec = 0, tv_nsec = 200000\<rparr>\<rparr>) [] = Some tr'
            \<and> sleeps tr' = 1)"
proof -
  let ?dR = "(demo_data False False False)\<lparr>operation_end := \<lparr>tv_sec = 0, tv_nsec = 37000\<rparr>\<rparr>"
  let ?dC = "(demo_data True False True)\<lparr>operation_end := \<lparr>tv_sec = 0, tv_nsec = 200000\<rparr>\<rparr>"
  have gt: "timespec_gt (operation_end ?dR) (env_clock_gettime (restless_env 2) [])"
    by (simp add: timespec_gt_def)
  have early: "\<forall>k<2. env_clock_nanosleep (restless_env 2)
                ([] @ [ClockGet] @ replicate k (ClockSleep (operation_end ?dR))) (operation_end ?dR) \<noteq> 0"
    by simp
  have last: "env_clock_nanosleep (restless_env 2)
                ([] @ [ClockGet] @ replicate 2 (ClockSleep (operation_end ?dR))) (operation_end ?dR) = 0"
    by simp
  have 1: "waitWhileBusy_ReadDisabled (restless_env 2) ?dR [] =
        Some ([] @ [ClockGet] @ replicate (Suc 2) (ClockSleep (operation_end ?dR)))"
    using blind_sleep_retried_without_read_only [of "restless_env 2" ?dR "[]" "[]" 2] gt early last
    by blast
  obtain tr' where w: "waitWhileBusy_8 interrupted_env ?dC [] = Some tr'"
    using waitWhileBusy_8_ready [of ?dC interrupted_env "[]"] by simp
  have "sleeps tr' = sleeps [] + (if far_away (operation_end ?dC) (env_clock_gettime interrupted_env []) then 1 else 0)"
    using blind_sleep_retried_without_read_only [of interrupted_env ?dC "[]" tr' 0] w
    by simp
  then have 2: "sleeps tr' = 1" by (simp add: far_away_def)
  from 1 w 2 show ?thesis by (simp add: numeral_3_eq_3 numeral_2_eq_2)
qed

text \<open>A node that can read, with its deadline 200 microseconds away, in an environment
  where every sleep is interrupted: the 8-bit wait calls the sleep once, the call returns
  nonzero, and the wait goes on to poll and returns. The sleep has returned early and was
  not repeated, against the claim.\<close>

theorem interrupted_sleep_not_repeated_counterexample:
  "env_clock_nanosleep interrupted_env [ClockGet] \<lparr>tv_sec = 0, tv_nsec = 200000\<rparr> \<noteq> 0 \<and>
   waitWhileBusy_8 interrupted_env
      ((demo_data True False True)\<lparr>operation_end := \<lparr>tv_sec = 0, tv_nsec = 200000\<rparr>\<rparr>) [] =
     Some [ClockGet, ClockSleep \<lparr>tv_sec = 0, tv_nsec = 200000\<rparr>,
           PinModeSet 10 INPUT, PinWrite 0 LOW, PinWrite 1 HIGH, DelayNs 50,
           PinWrite 2 HIGH, DelayNs 300,
           PinRead 10, PinModeSet 10 OUTPUT, PinWrite 2 LOW, DelayNs 300]"
  using waitWhileBusy_8_ready [of "(demo_data True False True)\<lparr>operation_end := \<lparr>tv_sec = 0, tv_nsec = 200000\<rparr>\<rparr>" interrupted_env "[]"]
  by (simp add: prologue_events_def far_away_def status_events_def cycle_open_def cycle_close_def
      ready_round_8_def)

text \<open>Claim C10: a write handler uses only the low 8 bits of its \<open>data\<close> argument: writing
  \<open>data\<close> and writing \<open>data mod 256\<close> give the same pin activity, the same mode and the
  same deadline, through either handler.\<close>

theorem write_uses_low_byte:
  "hd44780DigitalWrite_8 env node pin data tr = hd44780DigitalWrite_8 env node pin (data mod 256) tr
   \<and> hd44780DigitalWrite_4 env node pin data tr = hd44780DigitalWrite_4 env node pin (data mod 256) tr"
proof -
  have low: "(word_of_int (data mod 256) :: 8 word) = word_of_int data"
    by (simp add: word_of_int_eq_iff take_bit_eq_mod)
  show ?thesis
    unfolding hd44780DigitalWrite_8_def hd44780DigitalWrite_4_def low by (rule conjI; rule refl)
qed

end
